theory Spec2Isabelle
  imports Complex_Main "HOL-Library.List_Lexorder" "HOL-Library.Char_ord" "HOL-Library.Multiset"
begin

section \<open>Strings\<close>

text \<open>
  A Python \<open>str\<close> is modelled as a \<^typ>\<open>string\<close>: a list of 8-bit characters, read
  as the code points U+0000 to U+00FF. On these code points the character classes and
  the case mapping below are the ones of Python 3 (\<open>str.isspace\<close>, \<open>str.isalnum\<close>,
  \<open>str.lower\<close>); in particular \<open>lower\<close> maps one character to one character there.
\<close>

definition is_space :: "char \<Rightarrow> bool" where
  "is_space c \<longleftrightarrow>
     (let n = (of_char c :: nat)
      in (9 \<le> n \<and> n \<le> 13) \<or> (28 \<le> n \<and> n \<le> 32) \<or> n = 133 \<or> n = 160)"

definition is_alnum_char :: "char \<Rightarrow> bool" where
  "is_alnum_char c \<longleftrightarrow>
     (let n = (of_char c :: nat)
      in (48 \<le> n \<and> n \<le> 57) \<or> (65 \<le> n \<and> n \<le> 90) \<or> (97 \<le> n \<and> n \<le> 122)
         \<or> n = 170 \<or> n = 178 \<or> n = 179 \<or> n = 181 \<or> n = 185 \<or> n = 186
         \<or> (188 \<le> n \<and> n \<le> 190) \<or> (192 \<le> n \<and> n \<le> 214)
         \<or> (216 \<le> n \<and> n \<le> 246) \<or> (248 \<le> n \<and> n \<le> 255))"

definition lower_char :: "char \<Rightarrow> char" where
  "lower_char c =
     (let n = (of_char c :: nat)
      in if (65 \<le> n \<and> n \<le> 90) \<or> (192 \<le> n \<and> n \<le> 222 \<and> n \<noteq> 215)
         then char_of (n + 32) else c)"

text \<open>\<open>s.lower()\<close>, \<open>s.isalnum()\<close>, \<open>s.strip()\<close>, \<open>s.rstrip()\<close>.\<close>

definition lower :: "string \<Rightarrow> string" where
  "lower s = map lower_char s"

definition isalnum :: "string \<Rightarrow> bool" where
  "isalnum s \<longleftrightarrow> s \<noteq> [] \<and> list_all is_alnum_char s"

definition rstrip :: "string \<Rightarrow> string" where
  "rstrip s = rev (dropWhile is_space (rev s))"

definition strip :: "string \<Rightarrow> string" where
  "strip s = rstrip (dropWhile is_space s)"

text \<open>\<open>s.split()\<close>: the maximal runs of non-whitespace characters.\<close>

fun split_ws :: "string \<Rightarrow> string \<Rightarrow> string list" where
  "split_ws w [] = (if w = [] then [] else [rev w])"
| "split_ws w (c # cs) =
     (if is_space c then (if w = [] then split_ws [] cs else rev w # split_ws [] cs)
      else split_ws (c # w) cs)"

text \<open>\<open>sub in s\<close>, by the first position at which \<open>sub\<close> starts.\<close>

definition starts_with :: "string \<Rightarrow> string \<Rightarrow> bool" where
  "starts_with sub s \<longleftrightarrow> take (length sub) s = sub"

fun find_first :: "string \<Rightarrow> string \<Rightarrow> nat option" where
  "find_first sub [] = (if sub = [] then Some 0 else None)"
| "find_first sub (c # cs) =
     (if starts_with sub (c # cs) then Some 0 else map_option Suc (find_first sub cs))"

definition contains :: "string \<Rightarrow> string \<Rightarrow> bool" where
  "contains sub s \<longleftrightarrow> find_first sub s \<noteq> None"

text \<open>\<open>sep.join(xs)\<close> on strings.\<close>

fun join :: "string \<Rightarrow> string list \<Rightarrow> string" where
  "join sep [] = []"
| "join sep [x] = x"
| "join sep (x # y # ys) = x @ sep @ join sep (y # ys)"

section \<open>JSON values and the Python library\<close>

text \<open>
  What \<open>json.load\<close> returns. An object is an association list in insertion order, its
  keys distinct. A number without fraction or exponent is an \<open>int\<close>, any other number a
  \<open>float\<close>, held with the rational it stands for (the literals \<open>NaN\<close> and \<open>Infinity\<close>,
  which \<open>json.load\<close> also reads, and the float \<open>-0.0\<close> apart from \<open>0.0\<close> are not
  modelled).
\<close>

datatype json =
    JNull
  | JBool bool
  | JInt int
  | JFloat rat
  | JStr string
  | JList "json list"
  | JDict "(string \<times> json) list"

type_synonym object = "(string \<times> json) list"

datatype exn = TypeError | ValueError | AttributeError | ImportError | OtherError

text \<open>
  The parts of Python's library that the code calls and the repository does not hold:
  \<^item> \<open>parse_timestamp s\<close> is \<open>dateutil.parser.parse(s).timestamp()\<close>, its import included;
  \<^item> \<open>year_of t\<close> is \<open>datetime.fromtimestamp(t).year\<close> (local time);
  \<^item> \<open>strftime fmt t\<close> is \<open>datetime.fromtimestamp(t).strftime(fmt)\<close>;
  \<^item> \<open>repr v\<close> is \<open>str(v)\<close> for a number, a list or a dict;
  \<^item> \<open>write_file name content\<close> is the exception, if any, that
    \<open>open(os.path.join(output_dir, name), "w", encoding="utf-8")\<close> or the \<open>write\<close> of
    the content raises;
  \<^item> \<open>sort_arrays\<close> is \<open>list.sort\<close> on two or more messages whose sort keys are all
    JSON arrays: CPython compares arrays element by element, and whether a comparison
    raises depends on the pairs that its merge strategy compares.
  An exception that the code does not name is \<open>OtherError\<close>.
\<close>

record pylib =
  parse_timestamp :: "string \<Rightarrow> exn + rat"
  year_of :: "rat \<Rightarrow> exn + int"
  strftime :: "string \<Rightarrow> rat \<Rightarrow> exn + string"
  repr :: "json \<Rightarrow> string"
  write_file :: "string \<Rightarrow> string \<Rightarrow> exn option"
  sort_arrays :: "object list \<Rightarrow> exn + object list"

text \<open>\<open>bool(v)\<close>, \<open>isinstance(v, dict)\<close>, \<open>d.get(k, dflt)\<close>, \<open>str(v)\<close>.\<close>

fun truthy :: "json \<Rightarrow> bool" where
  "truthy JNull = False"
| "truthy (JBool b) = b"
| "truthy (JInt i) = (i \<noteq> 0)"
| "truthy (JFloat r) = (r \<noteq> 0)"
| "truthy (JStr s) = (s \<noteq> [])"
| "truthy (JList xs) = (xs \<noteq> [])"
| "truthy (JDict d) = (d \<noteq> [])"

fun is_dict :: "json \<Rightarrow> bool" where
  "is_dict (JDict d) = True"
| "is_dict v = False"

definition dict_get :: "(string \<times> json) list \<Rightarrow> string \<Rightarrow> json \<Rightarrow> json" where
  "dict_get d k dflt = (case map_of d k of None \<Rightarrow> dflt | Some v \<Rightarrow> v)"

text \<open>
  \<open>isinstance(v, (int, float))\<close> holds for numbers and for booleans (\<open>bool\<close> is a
  subclass of \<open>int\<close>, \<open>True\<close> is 1); \<open>num_of\<close> is the value compared then (Python
  compares an \<open>int\<close> and a \<open>float\<close> by their exact values).
\<close>

fun num_of :: "json \<Rightarrow> rat option" where
  "num_of (JInt i) = Some (of_int i)"
| "num_of (JFloat r) = Some r"
| "num_of (JBool b) = Some (if b then 1 else 0)"
| "num_of v = None"

definition positive_number :: "json \<Rightarrow> bool" where
  "positive_number v \<longleftrightarrow> (case num_of v of None \<Rightarrow> False | Some r \<Rightarrow> 0 < r)"

fun py_str :: "pylib \<Rightarrow> json \<Rightarrow> string" where
  "py_str env (JStr s) = s"
| "py_str env JNull = ''None''"
| "py_str env (JBool b) = (if b then ''True'' else ''False'')"
| "py_str env v = repr env v"

text \<open>
  \<open>for x in v\<close>: a list gives its elements, a string its characters, a dict its keys;
  nothing else is iterable.
\<close>

fun iterate :: "json \<Rightarrow> exn + json list" where
  "iterate (JList xs) = Inr xs"
| "iterate (JStr s) = Inr (map (\<lambda>c. JStr [c]) s)"
| "iterate (JDict d) = Inr (map (\<lambda>(k, v). JStr k) d)"
| "iterate v = Inl TypeError"

text \<open>\<open>"\n".join(xs)\<close>: a \<open>TypeError\<close> unless every item is a string.\<close>

fun str_items :: "json list \<Rightarrow> string list option" where
  "str_items [] = Some []"
| "str_items (JStr s # rest) = map_option ((#) s) (str_items rest)"
| "str_items (v # rest) = None"

definition join_lines :: "json list \<Rightarrow> exn + json" where
  "join_lines xs =
     (case str_items xs of
        None \<Rightarrow> Inl TypeError
      | Some ss \<Rightarrow> Inr (JStr (join [CHR 0x0A] ss)))"

section \<open>Pipeline 1: extraction\<close>

subsection \<open>\<open>extract_messages_safely\<close>\<close>

text \<open>The loop over \<open>mapping.items()\<close>: lines 80 to 84.\<close>

fun truthy_messages :: "(string \<times> json) list \<Rightarrow> json list" where
  "truthy_messages [] = []"
| "truthy_messages ((item_id, item) # rest) =
     (case item of
        JDict node \<Rightarrow>
          (case map_of node ''message'' of
             None \<Rightarrow> truthy_messages rest
           | Some message \<Rightarrow>
               if truthy message then message # truthy_messages rest
               else truthy_messages rest)
      | _ \<Rightarrow> truthy_messages rest)"

definition extract_messages_safely :: "json \<Rightarrow> exn + json list" where
  "extract_messages_safely entry =
     (case entry of
        JDict d \<Rightarrow>
          (case map_of d ''mapping'' of
             Some mapping \<Rightarrow>
               if \<not> truthy mapping then Inr []
               else (case mapping of
                       JDict mp \<Rightarrow> Inr (truthy_messages mp)
                     | _ \<Rightarrow> Inl AttributeError)
           | None \<Rightarrow>
               (case map_of d ''messages'' of
                  Some messages \<Rightarrow>
                    (case iterate messages of
                       Inl e \<Rightarrow> Inl e
                     | Inr ms \<Rightarrow> Inr (filter truthy ms))
                | None \<Rightarrow> Inr []))
      | _ \<Rightarrow> Inr [])"

subsection \<open>\<open>_get_message_content\<close>\<close>

text \<open>
  \<open>flatten\<close> is the body of the \<open>try\<close>; \<open>Inl\<close> is an exception raised in it. The
  function returns whatever the matched field holds, so its result is a JSON value.
\<close>

definition part_text :: "pylib \<Rightarrow> json \<Rightarrow> json" where
  "part_text env part =
     (case part of
        JDict p \<Rightarrow> (case map_of p ''text'' of Some t \<Rightarrow> t | None \<Rightarrow> JStr (py_str env part))
      | _ \<Rightarrow> JStr (py_str env part))"

fun first_field :: "(string \<times> json) list \<Rightarrow> string list \<Rightarrow> json option" where
  "first_field m [] = None"
| "first_field m (field # others) =
     (case map_of m field of Some v \<Rightarrow> Some v | None \<Rightarrow> first_field m others)"

definition text_fields :: "(string \<times> json) list \<Rightarrow> json list" where
  "text_fields c =
     filter (\<lambda>v. case v of JStr s \<Rightarrow> 0 < length s | _ \<Rightarrow> False) (map snd c)"

definition flatten_dict :: "pylib \<Rightarrow> (string \<times> json) list \<Rightarrow> exn + json" where
  "flatten_dict env c =
     (case map_of c ''parts'' of
        Some parts \<Rightarrow>
          (case iterate parts of
             Inl e \<Rightarrow> Inl e
           | Inr ps \<Rightarrow> join_lines (map (part_text env) (filter truthy ps)))
      | None \<Rightarrow>
     (case map_of c ''text'' of
        Some t \<Rightarrow> Inr t
      | None \<Rightarrow>
     (case map_of c ''result'' of
        Some r \<Rightarrow> Inr r
      | None \<Rightarrow>
     (case map_of c ''content_type'' of
        Some ct \<Rightarrow>
          if ct = JStr ''user_editable_context''
          then Inr (dict_get c ''user_profile''
                      (JStr ''Context information (no details available)''))
          else Inr (JStr (''Content of type: '' @ py_str env ct))
      | None \<Rightarrow>
          if text_fields c \<noteq> [] then join_lines (text_fields c)
          else Inr (JStr ''[Message content in unknown format]'')))))"

definition flatten :: "pylib \<Rightarrow> json \<Rightarrow> exn + json" where
  "flatten env message =
     (case message of
        JDict m \<Rightarrow>
          if m = [] then Inr (JStr [])
          else
            (case map_of m ''content'' of
               None \<Rightarrow>
                 (case first_field m [''text'', ''value'', ''body''] of
                    Some v \<Rightarrow> Inr (JStr (py_str env v))
                  | None \<Rightarrow> Inr (JStr []))
             | Some content \<Rightarrow>
                 (case content of
                    JStr s \<Rightarrow> Inr (JStr s)
                  | JDict c \<Rightarrow> flatten_dict env c
                  | JList items \<Rightarrow>
                      Inr (JStr (join [CHR 0x0A] (map (py_str env) (filter truthy items))))
                  | _ \<Rightarrow> Inr (JStr (py_str env content))))
      | _ \<Rightarrow> Inr (JStr []))"

definition get_message_content :: "pylib \<Rightarrow> json \<Rightarrow> json" where
  "get_message_content env message =
     (case flatten env message of
        Inl e \<Rightarrow> JStr ''[Content extraction error]''
      | Inr v \<Rightarrow> v)"

subsection \<open>\<open>get_create_time_safely\<close>\<close>

text \<open>The result \<open>None\<close> is \<open>JNull\<close>. Only \<open>ImportError\<close> and \<open>ValueError\<close> are caught.\<close>

fun alternative_time :: "pylib \<Rightarrow> (string \<times> json) list \<Rightarrow> string list \<Rightarrow> exn + json" where
  "alternative_time env m [] = Inr JNull"
| "alternative_time env m (field # others) =
     (case map_of m field of
        None \<Rightarrow> alternative_time env m others
      | Some v \<Rightarrow>
          if positive_number v then Inr v
          else (case v of
                  JStr s \<Rightarrow>
                    (case parse_timestamp env s of
                       Inr t \<Rightarrow> Inr (JFloat t)
                     | Inl e \<Rightarrow>
                         if e = ImportError \<or> e = ValueError
                         then alternative_time env m others else Inl e)
                | _ \<Rightarrow> alternative_time env m others))"

definition get_create_time_safely :: "pylib \<Rightarrow> json \<Rightarrow> exn + json" where
  "get_create_time_safely env message =
     (case message of
        JDict m \<Rightarrow>
          (case map_of m ''create_time'' of
             Some v \<Rightarrow>
               if positive_number v then Inr v
               else alternative_time env m [''timestamp'', ''time'', ''created_at'', ''date'']
           | None \<Rightarrow>
               alternative_time env m [''timestamp'', ''time'', ''created_at'', ''date''])
      | _ \<Rightarrow> Inr JNull)"

subsection \<open>\<open>_get_title\<close>\<close>

definition untitled :: string where
  "untitled = ''Untitled Conversation''"

definition get_title :: "pylib \<Rightarrow> json \<Rightarrow> json \<Rightarrow> exn + string" where
  "get_title env title first_message =
     (let synthesized =
            (if truthy first_message \<and> is_dict first_message then
               (let content = get_message_content env first_message
                in if truthy content then
                     (case content of
                        JStr s \<Rightarrow>
                          (let first_line = take 50 (takeWhile (\<lambda>c. c \<noteq> CHR 0x0A) s)
                           in Inr (if 3 < length first_line then first_line else untitled))
                      | _ \<Rightarrow> Inl AttributeError)
                   else Inr untitled)
             else Inr untitled)
      in if \<not> truthy title then synthesized
         else (case title of
                 JStr s \<Rightarrow> if strip s = [] then synthesized else Inr s
               | _ \<Rightarrow> Inl AttributeError))"

section \<open>Pipeline 1: \<open>process_conversations\<close>\<close>

text \<open>The configuration, with the types that \<open>main\<close>'s default configuration gives it.\<close>

record config =
  user_name :: string
  assistant_name :: string
  date_format :: string
  message_separator :: string
  skip_empty_messages :: bool
  filter_before_year :: int
  enable_summarization :: bool

text \<open>
  What one pass of the loop does with its entry: it has written a file (its name, its
  content) and counts the entry as processed, or it counts the entry as skipped, as
  skipped for its age, or (\<open>Failed\<close>) it ends in the \<open>except Exception\<close> of the loop
  body, which counts the entry as skipped.
\<close>

datatype outcome = Written string string | Skipped | SkippedOld | Failed

subsection \<open>Timestamps\<close>

text \<open>\<open>t and isinstance(t, (int, float)) and t > 0\<close>, and the number compared.\<close>

definition valid_time :: "json \<Rightarrow> bool" where
  "valid_time t \<longleftrightarrow> truthy t \<and> positive_number t"

definition time_value :: "json \<Rightarrow> rat" where
  "time_value t = (case num_of t of None \<Rightarrow> 0 | Some r \<Rightarrow> r)"

text \<open>Lines 240 to 251: the conversation's own \<open>create_time\<close>, a string parsed.\<close>

definition conversation_time :: "pylib \<Rightarrow> object \<Rightarrow> exn + json" where
  "conversation_time env d =
     (case dict_get d ''create_time'' JNull of
        JStr s \<Rightarrow>
          (case parse_timestamp env s of
             Inr t \<Rightarrow> Inr (JFloat t)
           | Inl e \<Rightarrow> if e = ImportError \<or> e = ValueError then Inr JNull else Inl e)
      | v \<Rightarrow> Inr v)"

text \<open>Lines 254 to 260: the early filter. \<open>Inr True\<close> is ``skip, too old''.\<close>

definition early_filter :: "pylib \<Rightarrow> config \<Rightarrow> json \<Rightarrow> exn + bool" where
  "early_filter env cfg t =
     (if valid_time t then
        (case year_of env (time_value t) of
           Inl e \<Rightarrow> Inl e
         | Inr conversation_year \<Rightarrow> Inr (conversation_year < filter_before_year cfg))
      else Inr False)"

text \<open>
  Lines 307 to 319: the final filter. \<open>DEBUG_DATES\<close> is \<open>True\<close>, so the date is
  formatted for the message printed before the year is compared.
\<close>

definition final_filter :: "pylib \<Rightarrow> config \<Rightarrow> json \<Rightarrow> exn + bool" where
  "final_filter env cfg t =
     (if valid_time t then
        (case year_of env (time_value t) of
           Inl e \<Rightarrow> Inl e
         | Inr conversation_year \<Rightarrow>
             (case strftime env ''%Y-%m-%d'' (time_value t) of
                Inl e \<Rightarrow> Inl e
              | Inr printed \<Rightarrow> Inr (conversation_year < filter_before_year cfg)))
      else Inr False)"

text \<open>
  Lines 302 to 304: \<open>if not create_time or create_time <= 0: create_time =
  message_create_time\<close>. The comparison raises on a value that is not a number.
\<close>

definition pick_create_time :: "json \<Rightarrow> json \<Rightarrow> exn + json" where
  "pick_create_time conversation_create_time message_create_time =
     (if \<not> truthy conversation_create_time then Inr message_create_time
      else (case num_of conversation_create_time of
              None \<Rightarrow> Inl TypeError
            | Some r \<Rightarrow>
                if r \<le> 0 then Inr message_create_time else Inr conversation_create_time))"

subsection \<open>Messages\<close>

text \<open>\<open>d[k] = v\<close>: a key the dict holds keeps its place, a new key comes last.\<close>

fun dict_set :: "object \<Rightarrow> string \<Rightarrow> json \<Rightarrow> object" where
  "dict_set [] k v = [(k, v)]"
| "dict_set ((k', v') # rest) k v =
     (if k' = k then (k, v) # rest else (k', v') # dict_set rest k v)"

text \<open>Lines 282 and 283.\<close>

definition normalize_author :: "object \<Rightarrow> object" where
  "normalize_author message =
     (case map_of message ''author'' of
        Some (JDict a) \<Rightarrow> message
      | _ \<Rightarrow> dict_set message ''author'' (JDict [(''role'', JStr ''unknown'')]))"

text \<open>Lines 269 to 285: the loop over \<open>mapping.items()\<close>.\<close>

fun collect_messages :: "object \<Rightarrow> object list" where
  "collect_messages [] = []"
| "collect_messages ((item_id, item) # rest) =
     (case item of
        JDict node \<Rightarrow>
          (case map_of node ''message'' of
             Some (JDict message) \<Rightarrow> normalize_author message # collect_messages rest
           | _ \<Rightarrow> collect_messages rest)
      | _ \<Rightarrow> collect_messages rest)"

text \<open>
  Line 294: \<open>messages.sort(key=lambda x: x.get("create_time", 0) or 0)\<close>. \<open>list.sort\<close>
  is stable and compares the keys with \<open><\<close>. Numbers (and \<open>True\<close>) compare with
  numbers, strings with strings; a dict compares with nothing and two keys of different
  kinds do not compare (\<open>TypeError\<close>); a list of one message is compared with nothing.
\<close>

definition sort_key_of :: "object \<Rightarrow> json" where
  "sort_key_of x =
     (let v = dict_get x ''create_time'' (JInt 0) in if truthy v then v else JInt 0)"

definition num_key :: "object \<Rightarrow> rat" where
  "num_key x = time_value (sort_key_of x)"

definition str_key :: "object \<Rightarrow> string" where
  "str_key x = (case sort_key_of x of JStr s \<Rightarrow> s | _ \<Rightarrow> [])"

definition sort_messages :: "pylib \<Rightarrow> object list \<Rightarrow> exn + object list" where
  "sort_messages env messages =
     (if length messages \<le> 1 then Inr messages
      else if list_all (\<lambda>x. num_of (sort_key_of x) \<noteq> None) messages
        then Inr (sort_key num_key messages)
      else if list_all (\<lambda>x. case sort_key_of x of JStr s \<Rightarrow> True | _ \<Rightarrow> False) messages
        then Inr (sort_key str_key messages)
      else if list_all (\<lambda>x. case sort_key_of x of JList l \<Rightarrow> True | _ \<Rightarrow> False) messages
        then sort_arrays env messages
      else Inl TypeError)"

text \<open>Lines 262 to 294: \<open>Inr None\<close> is a skip (no mapping, or no message in it).\<close>

definition sorted_turns :: "pylib \<Rightarrow> json \<Rightarrow> exn + object list option" where
  "sorted_turns env mapping =
     (if \<not> truthy mapping then Inr None
      else (case mapping of
              JDict mp \<Rightarrow>
                (let messages = collect_messages mp
                 in if messages = [] then Inr None
                    else (case sort_messages env messages of
                            Inl e \<Rightarrow> Inl e
                          | Inr sorted_messages \<Rightarrow> Inr (Some sorted_messages)))
            | _ \<Rightarrow> Inl AttributeError))"

subsection \<open>Rendering\<close>

text \<open>Lines 325 to 331: only \<open>ValueError\<close> and \<open>TypeError\<close> are caught.\<close>

definition date_string :: "pylib \<Rightarrow> config \<Rightarrow> json \<Rightarrow> exn + string" where
  "date_string env cfg create_time =
     (if valid_time create_time then
        (case strftime env (date_format cfg) (time_value create_time) of
           Inr s \<Rightarrow> Inr s
         | Inl e \<Rightarrow> if e = ValueError \<or> e = TypeError then Inr [] else Inl e)
      else Inr [])"

text \<open>Lines 334 to 338.\<close>

definition sanitize :: "string \<Rightarrow> string" where
  "sanitize inferred_title =
     rstrip (filter (\<lambda>c. is_alnum_char c \<or> c \<in> set [CHR '' '', CHR ''_'', CHR ''-''])
               inferred_title)"

definition underscores :: "string \<Rightarrow> string" where
  "underscores s = map (\<lambda>c. if c = CHR '' '' then CHR ''_'' else c) s"

definition file_name_of :: "string \<Rightarrow> string \<Rightarrow> string" where
  "file_name_of date_str inferred_title =
     (if date_str \<noteq> [] then date_str @ ''_'' @ underscores (sanitize inferred_title) @ ''.md''
      else underscores (sanitize inferred_title) @ ''.md'')"

text \<open>Lines 345 to 361: the title line and the metadata.\<close>

definition header :: "config \<Rightarrow> string \<Rightarrow> string \<Rightarrow> string" where
  "header cfg date_str inferred_title =
     (if date_str \<noteq> [] then ''# '' @ date_str @ '' '' @ inferred_title @ message_separator cfg
      else ''# '' @ inferred_title @ message_separator cfg)"

definition id_line :: "pylib \<Rightarrow> config \<Rightarrow> json \<Rightarrow> string" where
  "id_line env cfg conversation_id =
     ''<sub>Conversation ID: '' @ py_str env conversation_id @ ''</sub>''
       @ message_separator cfg"

definition creation_line :: "pylib \<Rightarrow> config \<Rightarrow> json \<Rightarrow> exn + string" where
  "creation_line env cfg create_time =
     (if valid_time create_time then
        (case strftime env ''%Y-%m-%d %H:%M:%S'' (time_value create_time) of
           Inl e \<Rightarrow> Inl e
         | Inr formatted_date \<Rightarrow>
             Inr (''<sub>Creation time: '' @ formatted_date @ ''</sub>''
                    @ message_separator cfg))
      else Inr [])"

definition summary_line :: "config \<Rightarrow> string" where
  "summary_line cfg =
     (if enable_summarization cfg
      then ''**Summary:** [Not implemented yet]'' @ message_separator cfg else [])"

text \<open>
  Lines 364 to 375: what one message adds to the content. An exception in the inner
  \<open>try\<close> (an author that is not a dict, a content without \<open>strip\<close>) skips the message.
\<close>

definition render_message :: "pylib \<Rightarrow> config \<Rightarrow> object \<Rightarrow> string" where
  "render_message env cfg message =
     (case dict_get message ''author'' (JDict []) of
        JDict author \<Rightarrow>
          (let author_role = dict_get author ''role'' (JStr ''unknown'');
               msg_content = get_message_content env (JDict message);
               author_name =
                 (if author_role = JStr ''user'' then user_name cfg else assistant_name cfg);
               line = ''**'' @ author_name @ ''**: '' @ py_str env msg_content
                        @ message_separator cfg
           in if \<not> skip_empty_messages cfg then line
              else (case msg_content of
                      JStr s \<Rightarrow> if strip s \<noteq> [] then line else []
                    | _ \<Rightarrow> []))
      | _ \<Rightarrow> [])"

fun render_messages :: "pylib \<Rightarrow> config \<Rightarrow> object list \<Rightarrow> string" where
  "render_messages env cfg [] = []"
| "render_messages env cfg (message # rest) =
     render_message env cfg message @ render_messages env cfg rest"

text \<open>
  Lines 321 to 386, for the sorted messages and the timestamp that was picked. An
  exception of the write of lines 384 and 385 ends, as every other exception, in the
  handler of the loop.
\<close>

definition render ::
  "pylib \<Rightarrow> config \<Rightarrow> json \<Rightarrow> json \<Rightarrow> json \<Rightarrow> object list \<Rightarrow> exn + outcome" where
  "render env cfg title conversation_id create_time messages =
     (case get_title env title (case messages of [] \<Rightarrow> JNull | m # ms \<Rightarrow> JDict m) of
        Inl e \<Rightarrow> Inl e
      | Inr inferred_title \<Rightarrow>
     (case date_string env cfg create_time of
        Inl e \<Rightarrow> Inl e
      | Inr date_str \<Rightarrow>
     (case creation_line env cfg create_time of
        Inl e \<Rightarrow> Inl e
      | Inr created \<Rightarrow>
          (let content = header cfg date_str inferred_title
                 @ id_line env cfg conversation_id @ created @ summary_line cfg
                 @ render_messages env cfg messages
           in if length (strip content) < 10 then Inr Skipped
              else (case write_file env (file_name_of date_str inferred_title) content of
                      Some e \<Rightarrow> Inl e
                    | None \<Rightarrow>
                        Inr (Written (file_name_of date_str inferred_title) content))))))"

subsection \<open>The loop\<close>

text \<open>Lines 297 to 299: the timestamp of the first message in sorted order.\<close>

definition first_message_time :: "pylib \<Rightarrow> object list \<Rightarrow> exn + json" where
  "first_message_time env messages =
     (case messages of
        [] \<Rightarrow> Inr JNull
      | first # rest \<Rightarrow> get_create_time_safely env (JDict first))"

text \<open>Lines 228 to 386: the body of the \<open>try\<close> of the loop.\<close>

definition process_entry_body :: "pylib \<Rightarrow> config \<Rightarrow> json \<Rightarrow> exn + outcome" where
  "process_entry_body env cfg entry =
     (case entry of
        JDict d \<Rightarrow>
          (let title = dict_get d ''title'' (JStr []);
               mapping = dict_get d ''mapping'' (JDict []);
               conversation_id = dict_get d ''id'' (JStr ''unknown'')
           in
     (case conversation_time env d of
        Inl e \<Rightarrow> Inl e
      | Inr conversation_create_time \<Rightarrow>
     (case early_filter env cfg conversation_create_time of
        Inl e \<Rightarrow> Inl e
      | Inr True \<Rightarrow> Inr SkippedOld
      | Inr False \<Rightarrow>
     (case sorted_turns env mapping of
        Inl e \<Rightarrow> Inl e
      | Inr None \<Rightarrow> Inr Skipped
      | Inr (Some messages) \<Rightarrow>
     (case first_message_time env messages of
        Inl e \<Rightarrow> Inl e
      | Inr message_create_time \<Rightarrow>
     (case pick_create_time conversation_create_time message_create_time of
        Inl e \<Rightarrow> Inl e
      | Inr create_time \<Rightarrow>
     (case final_filter env cfg create_time of
        Inl e \<Rightarrow> Inl e
      | Inr True \<Rightarrow> Inr SkippedOld
      | Inr False \<Rightarrow>
          render env cfg title conversation_id create_time messages)))))))
      | _ \<Rightarrow> Inr Skipped)"

definition process_entry :: "pylib \<Rightarrow> config \<Rightarrow> json \<Rightarrow> outcome" where
  "process_entry env cfg entry =
     (case process_entry_body env cfg entry of Inl e \<Rightarrow> Failed | Inr out \<Rightarrow> out)"

text \<open>
  The counters of \<open>process_conversations\<close> and the files it has written; the function
  returns \<open>(processed, skipped)\<close>.
\<close>

record tally =
  processed :: int
  skipped :: int
  skipped_old :: int
  written :: "(string \<times> string) list"

fun count_outcome :: "outcome \<Rightarrow> tally \<Rightarrow> tally" where
  "count_outcome (Written file_name content) t =
     t\<lparr>processed := processed t + 1, written := written t @ [(file_name, content)]\<rparr>"
| "count_outcome Skipped t = t\<lparr>skipped := skipped t + 1\<rparr>"
| "count_outcome SkippedOld t = t\<lparr>skipped_old := skipped_old t + 1\<rparr>"
| "count_outcome Failed t = t\<lparr>skipped := skipped t + 1\<rparr>"

fun run_entries :: "pylib \<Rightarrow> config \<Rightarrow> json list \<Rightarrow> tally \<Rightarrow> tally" where
  "run_entries env cfg [] t = t"
| "run_entries env cfg (entry # rest) t =
     run_entries env cfg rest (count_outcome (process_entry env cfg entry) t)"

definition process_conversations :: "pylib \<Rightarrow> config \<Rightarrow> json list \<Rightarrow> tally" where
  "process_conversations env cfg data =
     run_entries env cfg data \<lparr>processed = 0, skipped = 0, skipped_old = 0, written = []\<rparr>"

section \<open>Pipeline 2: the tagger\<close>

text \<open>
  \<open>TOPIC_KEYWORDS\<close> of \<open>obsidian_chatgpt_organizer.py\<close>, in its declared order (a
  Python dict iterates in insertion order).
\<close>

definition TOPIC_KEYWORDS :: "(string \<times> string list) list" where
  "TOPIC_KEYWORDS =
    [(''python'', [''python'', ''django'', ''flask'', ''pandas'', ''numpy'', ''matplotlib'',
        ''tensorflow'', ''pytorch'']),
     (''javascript'', [''javascript'', ''js'', ''node'', ''react'', ''vue'', ''angular'',
        ''typescript'', ''npm'']),
     (''startup'', [''startup'', ''founder'', ''venture'', ''pitch'', ''entrepreneurship'',
        ''business model'', ''mvp'']),
     (''marketing'', [''marketing'', ''seo'', ''advertising'', ''customer'', ''brand'',
        ''social media'', ''content'']),
     (''vc'', [''vc'', ''venture capital'', ''investor'', ''funding'', ''series a'', ''angel'',
        ''term sheet'']),
     (''ai'', [''ai'', ''artificial intelligence'', ''machine learning'', ''ml'',
        ''deep learning'', ''llm'', ''neural'']),
     (''data'', [''data'', ''database'', ''sql'', ''nosql'', ''analytics'', ''visualization'',
        ''dashboard'']),
     (''web'', [''web'', ''html'', ''css'', ''frontend'', ''backend'', ''fullstack'',
        ''responsive'']),
     (''mobile'', [''mobile'', ''ios'', ''android'', ''app'', ''swift'', ''kotlin'',
        ''react native'']),
     (''cloud'', [''cloud'', ''aws'', ''azure'', ''gcp'', ''serverless'', ''docker'',
        ''kubernetes'']),
     (''security'', [''security'', ''encryption'', ''authentication'', ''vulnerability'',
        ''firewall'', ''cybersecurity'']),
     (''blockchain'', [''blockchain'', ''crypto'', ''bitcoin'', ''ethereum'', ''nft'', ''token'',
        ''web3'']),
     (''design'', [''design'', ''ui'', ''ux'', ''figma'', ''sketch'', ''wireframe'',
        ''prototype'']),
     (''career'', [''career'', ''resume'', ''interview'', ''job'', ''salary'', ''promotion'',
        ''skills'']),
     (''productivity'', [''productivity'', ''workflow'', ''efficiency'', ''automation'',
        ''tool'', ''process'']),
     (''health'', [''health'', ''fitness'', ''nutrition'', ''medical'', ''exercise'',
        ''wellness'', ''diet'']),
     (''education'', [''education'', ''learning'', ''course'', ''tutorial'', ''teach'',
        ''student'', ''training''])]"

text \<open>
  NLTK is not part of the repository: its tokenizer and its English stop-word list are
  parameters of the model.
\<close>

record nltk =
  word_tokenize :: "string \<Rightarrow> string list"
  stopwords :: "string list"

text \<open>
  The test of the inner loop of \<open>extract_tags_from_content\<close>:
  \<open>token in keywords or any(keyword in content and len(keyword.split()) > 1
  for keyword in keywords)\<close>.
\<close>

definition multi_word :: "string \<Rightarrow> bool" where
  "multi_word keyword \<longleftrightarrow> 1 < length (split_ws [] keyword)"

definition keyword_hit :: "string \<Rightarrow> string \<Rightarrow> string list \<Rightarrow> bool" where
  "keyword_hit content token keywords \<longleftrightarrow>
     token \<in> set keywords
     \<or> list_ex (\<lambda>keyword. contains keyword content \<and> multi_word keyword) keywords"

text \<open>\<open>topic_scores[topic] += 1\<close> on a dict that holds the key.\<close>

fun bump :: "string \<Rightarrow> (string \<times> int) list \<Rightarrow> (string \<times> int) list" where
  "bump topic [] = []"
| "bump topic ((t, n) # rest) =
     (if t = topic then (t, n + 1) # rest else (t, n) # bump topic rest)"

text \<open>The inner loop over \<open>TOPIC_KEYWORDS.items()\<close>, then the outer loop over the tokens.\<close>

fun score_token ::
  "string \<Rightarrow> string \<Rightarrow> (string \<times> string list) list \<Rightarrow> (string \<times> int) list
     \<Rightarrow> (string \<times> int) list" where
  "score_token content token [] scores = scores"
| "score_token content token ((topic, keywords) # items) scores =
     score_token content token items
       (if keyword_hit content token keywords then bump topic scores else scores)"

fun score_tokens ::
  "string \<Rightarrow> string list \<Rightarrow> (string \<times> int) list \<Rightarrow> (string \<times> int) list" where
  "score_tokens content [] scores = scores"
| "score_tokens content (token # tokens) scores =
     score_tokens content tokens (score_token content token TOPIC_KEYWORDS scores)"

definition filtered_tokens :: "nltk \<Rightarrow> string \<Rightarrow> string list" where
  "filtered_tokens tk content =
     filter (\<lambda>w. isalnum w \<and> w \<notin> set (stopwords tk)) (word_tokenize tk content)"

definition topic_scores :: "nltk \<Rightarrow> string \<Rightarrow> (string \<times> int) list" where
  "topic_scores tk content0 =
     (let content = lower content0
      in score_tokens content (filtered_tokens tk content)
           (map (\<lambda>(topic, keywords). (topic, 0)) TOPIC_KEYWORDS))"

definition extract_tags_from_content :: "nltk \<Rightarrow> string \<Rightarrow> string list" where
  "extract_tags_from_content tk content =
     ''chatgpt'' # map fst (filter (\<lambda>(topic, score). 1 < score) (topic_scores tk content))"

section \<open>Pipeline 2: the segmenter\<close>

definition TOPIC_TRANSITION_PHRASES :: "string list" where
  "TOPIC_TRANSITION_PHRASES =
    [''now let's switch to'', ''moving on to'', ''let's change the subject'',
     ''on a different topic'', ''switching gears'', ''let's talk about something else'',
     ''changing the subject'', ''new topic:'', ''regarding your other question'',
     ''to address your next point'', ''on another note'']"

text \<open>The renderer's turn marker: two line feeds and two asterisks.\<close>

definition turn_marker :: string where
  "turn_marker = [CHR 0x0A, CHR 0x0A, CHR ''*'', CHR ''*'']"

text \<open>
  \<open>re.split(r'\n\n\*\*', content)\<close>: the pattern is a literal, so the matches are the
  leftmost occurrences of the marker that do not overlap. \<open>chunk\<close> holds the characters
  read since the last match, last one first.
\<close>

fun re_split :: "string \<Rightarrow> string \<Rightarrow> string list" where
  "re_split chunk [] = [rev chunk]"
| "re_split chunk (c # cs) =
     (if starts_with turn_marker (c # cs) then rev chunk # re_split [] (drop 3 cs)
      else re_split (c # chunk) cs)"

text \<open>
  Python's index arithmetic. \<open>s.find(sub, start)\<close> and \<open>s.rfind(sub, 0, end)\<close> return
  \<open>-1\<close> when there is no occurrence; a negative \<open>start\<close> or \<open>end\<close> counts from the end
  of \<open>s\<close>, and both are clipped as slice bounds are.
\<close>

definition clip_index :: "nat \<Rightarrow> int \<Rightarrow> nat" where
  "clip_index n i = (if i < 0 then nat (int n + i) else min (nat i) n)"

definition py_find :: "string \<Rightarrow> string \<Rightarrow> int \<Rightarrow> int" where
  "py_find s sub start =
     (if int (length s) < start then - 1
      else let st = clip_index (length s) start
           in case find_first sub (drop st s) of
                None \<Rightarrow> - 1
              | Some k \<Rightarrow> int (st + k))"

fun find_last :: "string \<Rightarrow> string \<Rightarrow> nat option" where
  "find_last sub [] = (if sub = [] then Some 0 else None)"
| "find_last sub (c # cs) =
     (case find_last sub cs of
        Some k \<Rightarrow> Some (Suc k)
      | None \<Rightarrow> if starts_with sub (c # cs) then Some 0 else None)"

definition py_rfind0 :: "string \<Rightarrow> string \<Rightarrow> int \<Rightarrow> int" where
  "py_rfind0 s sub end =
     (case find_last sub (take (clip_index (length s) end) s) of
        None \<Rightarrow> - 1
      | Some k \<Rightarrow> int k)"

text \<open>The slices \<open>s[a:b]\<close> and \<open>s[a:]\<close>.\<close>

definition py_slice :: "string \<Rightarrow> int \<Rightarrow> int \<Rightarrow> string" where
  "py_slice s a b =
     (let a' = clip_index (length s) a; b' = clip_index (length s) b
      in take (b' - a') (drop a' s))"

definition py_slice_from :: "string \<Rightarrow> int \<Rightarrow> string" where
  "py_slice_from s a = drop (clip_index (length s) a) s"

text \<open>
  \<open>detect_topic_transitions\<close>: the loop over \<open>enumerate(messages)\<close>, with the loop
  index \<open>i\<close> and \<open>current_index\<close> as arguments. The inner loop stops at the first phrase
  of the list that the lowered message contains.
\<close>

fun scan_messages :: "string \<Rightarrow> nat \<Rightarrow> int \<Rightarrow> string list \<Rightarrow> int list" where
  "scan_messages content i current_index [] = []"
| "scan_messages content i current_index (message # rest) =
     (let message_lower = lower message;
          found =
            (if 0 < i then
               (case List.find (\<lambda>phrase. contains phrase message_lower)
                       TOPIC_TRANSITION_PHRASES of
                  None \<Rightarrow> []
                | Some phrase \<Rightarrow>
                    [py_find content message current_index + py_find message_lower phrase 0])
             else [])
      in found @
         scan_messages content (Suc i)
           (py_find content message current_index + int (length message)) rest)"

definition detect_topic_transitions :: "string \<Rightarrow> int list" where
  "detect_topic_transitions content = scan_messages content 0 0 (re_split [] content)"

text \<open>
  \<open>split_content_by_topics\<close>: the loop over the transitions builds \<open>parts\<close>; the last
  line of the function keeps the parts that are not blank.
\<close>

fun cut_parts :: "string \<Rightarrow> int \<Rightarrow> int list \<Rightarrow> string list" where
  "cut_parts content start [] = [py_slice_from content start]"
| "cut_parts content start (pos # rest) =
     (let found = py_rfind0 content turn_marker pos;
          message_start = (if found = - 1 then 0 else found)
      in py_slice content start message_start # cut_parts content message_start rest)"

definition split_content_by_topics :: "string \<Rightarrow> string list" where
  "split_content_by_topics content =
     (let transitions = detect_topic_transitions content
      in if transitions = [] then [content]
         else filter (\<lambda>part. strip part \<noteq> []) (cut_parts content 0 transitions))"

section \<open>Notions of the specification and inputs of the examples\<close>

subsection \<open>Counting nodes\<close>

text \<open>
  Three readings of ``a node with a message'': the \<open>message\<close> field is present and not
  null (the specification's words), it is an object (what \<open>process_conversations\<close>
  keeps), it is truthy (what \<open>extract_messages_safely\<close> keeps).
\<close>

definition non_null_message :: "json \<Rightarrow> bool" where
  "non_null_message item \<longleftrightarrow>
     (case item of
        JDict node \<Rightarrow> (case map_of node ''message'' of Some v \<Rightarrow> v \<noteq> JNull | None \<Rightarrow> False)
      | _ \<Rightarrow> False)"

definition dict_message :: "json \<Rightarrow> bool" where
  "dict_message item \<longleftrightarrow>
     (case item of
        JDict node \<Rightarrow> (case map_of node ''message'' of Some (JDict m) \<Rightarrow> True | _ \<Rightarrow> False)
      | _ \<Rightarrow> False)"

definition truthy_message :: "json \<Rightarrow> bool" where
  "truthy_message item \<longleftrightarrow>
     (case item of
        JDict node \<Rightarrow> (case map_of node ''message'' of Some v \<Rightarrow> truthy v | None \<Rightarrow> False)
      | _ \<Rightarrow> False)"

subsection \<open>Timestamps\<close>

text \<open>
  The timestamp that \<open>get_create_time_safely\<close> resolves for a turn, 0 when it resolves
  none; and the test of line 303, under which the conversation's own \<open>create_time\<close> gives
  way to the first turn's.
\<close>

definition resolved_time :: "pylib \<Rightarrow> object \<Rightarrow> rat" where
  "resolved_time env x =
     (case get_create_time_safely env (JDict x) of Inl e \<Rightarrow> 0 | Inr t \<Rightarrow> time_value t)"


subsection \<open>The tagger's score, as the specification words it\<close>

text \<open>
  A filtered token counts for a topic when it is one of the topic's single-word
  keywords, or when one of the topic's multi-word keywords occurs in the lowered text;
  the claimed score of a topic is the number of filtered tokens that count for it.
\<close>

definition phrase_present :: "string \<Rightarrow> string list \<Rightarrow> bool" where
  "phrase_present content keywords \<longleftrightarrow>
     list_ex (\<lambda>keyword. multi_word keyword \<and> contains keyword content) keywords"

definition token_counts :: "string \<Rightarrow> string list \<Rightarrow> string \<Rightarrow> bool" where
  "token_counts content keywords token \<longleftrightarrow>
     token \<in> set (filter (\<lambda>keyword. \<not> multi_word keyword) keywords)
     \<or> phrase_present content keywords"

definition claimed_score :: "nltk \<Rightarrow> string \<Rightarrow> string list \<Rightarrow> int" where
  "claimed_score tk content keywords =
     int (length (filter (token_counts (lower content) keywords)
                    (filtered_tokens tk (lower content))))"

text \<open>What one token adds to the score of topic \<open>t\<close> in one pass of the inner loop.\<close>

definition hits :: "string \<Rightarrow> string \<Rightarrow> (string \<times> string list) list \<Rightarrow> string \<Rightarrow> int" where
  "hits content token items t =
     (case map_of items t of
        Some keywords \<Rightarrow> if keyword_hit content token keywords then 1 else 0
      | None \<Rightarrow> 0)"

subsection \<open>The segmenter's cuts\<close>

text \<open>
  The position at which \<open>split_content_by_topics\<close> cuts for one transition (the
  \<open>message_start\<close> of its loop), and the positions at which a cut can fall: the start
  of the document and the starts of the turn markers.
\<close>

definition cut_at :: "string \<Rightarrow> int \<Rightarrow> int" where
  "cut_at content pos =
     (let found = py_rfind0 content turn_marker pos in if found = - 1 then 0 else found)"

definition cut_point :: "string \<Rightarrow> int \<Rightarrow> bool" where
  "cut_point content k \<longleftrightarrow> k = 0 \<or> starts_with turn_marker (drop (nat k) content)"

subsection \<open>Inputs of the examples\<close>

text \<open>
  An environment in which no string parses as a date, a year has 31556952 seconds,
  every date prints as \<open>DATE\<close> and a write fails when the file name has more than 255
  characters; and the default configuration of \<open>main\<close>.
\<close>

definition env0 :: pylib where
  "env0 = \<lparr>parse_timestamp = (\<lambda>s. Inl ValueError),
           year_of = (\<lambda>t. Inr (1970 + \<lfloor>t\<rfloor> div 31556952)),
           strftime = (\<lambda>fmt t. Inr ''DATE''),
           repr = (\<lambda>v. ''?''),
           write_file = (\<lambda>name content. if 255 < length name then Some OtherError else None),
           sort_arrays = (\<lambda>ms. Inl TypeError)\<rparr>"

definition cfg0 :: config where
  "cfg0 = \<lparr>user_name = ''User'', assistant_name = ''ChatGPT'', date_format = ''%Y-%m-%d'',
            message_separator = [CHR 0x0A, CHR 0x0A], skip_empty_messages = True,
            filter_before_year = 2025, enable_summarization = False\<rparr>"

text \<open>
  A message whose \<open>parts\<close> is a number: iterating over it raises \<open>TypeError\<close>.
\<close>

definition bad_parts_message :: object where
  "bad_parts_message =
     [(''author'', JDict [(''role'', JStr ''user'')]),
      (''content'', JDict [(''parts'', JInt 5)])]"

text \<open>
  A mapping with three nodes: the message of \<open>a\<close> is a string, the message of \<open>c\<close>
  is an empty object. A record with a flat \<open>messages\<close> list and no \<open>mapping\<close>.
\<close>

definition text_node_mapping :: object where
  "text_node_mapping =
     [(''a'', JDict [(''message'', JStr ''hi'')]),
      (''b'', JDict [(''message'', JDict [(''content'', JStr ''Hello world'')])]),
      (''c'', JDict [(''message'', JDict [])])]"

definition flat_entry :: object where
  "flat_entry =
     [(''title'', JStr ''Flat''),
      (''messages'', JList [JNull,
         JDict [(''author'', JDict [(''role'', JStr ''user'')]),
                (''content'', JStr ''Hello world'')]])]"

text \<open>
  Two turns: the first has \<open>create_time\<close> 10, the second has no \<open>create_time\<close> and
  \<open>timestamp\<close> 20.
\<close>

definition first_turn :: object where
  "first_turn = [(''author'', JDict [(''role'', JStr ''user'')]),
                 (''content'', JStr ''first''), (''create_time'', JInt 10)]"

definition second_turn :: object where
  "second_turn = [(''author'', JDict [(''role'', JStr ''assistant'')]),
                  (''content'', JStr ''second''), (''timestamp'', JInt 20)]"

definition two_turn_mapping :: object where
  "two_turn_mapping =
     [(''a'', JDict [(''message'', JDict first_turn)]),
      (''b'', JDict [(''message'', JDict second_turn)])]"












definition blank_turn :: object where
  "blank_turn = [(''author'', JDict [(''role'', JStr ''user'')]), (''content'', JStr [])]"

definition empty_body_entry :: json where
  "empty_body_entry =
     JDict [(''id'', JStr ''c1''), (''title'', JStr ''Empty''),
            (''mapping'', JDict [(''a'', JDict [(''message'', JDict blank_turn)])])]"

text \<open>
  A document that starts with two spaces, and a document of two turns, the second of
  which announces a new topic.
\<close>

definition blank_start_document :: string where
  "blank_start_document = ''  '' @ turn_marker @ ''A: moving on to''"

definition two_topic_document :: string where
  "two_topic_document =
     ''# T'' @ turn_marker @ ''User**: hi'' @ turn_marker @ ''Bot**: new topic: x''"

text \<open>A tokenizer that splits at white space, and two stop words.\<close>

definition tk0 :: nltk where
  "tk0 = \<lparr>word_tokenize = split_ws [], stopwords = [''and'', ''the'']\<rparr>"

section \<open>Properties of the extraction\<close>

lemma render_messages_append:
  "render_messages env cfg (xs @ ys) = render_messages env cfg xs @ render_messages env cfg ys"
  by (induction xs) auto

text \<open>
  C6. When the flattening of a message raises, \<open>_get_message_content\<close> returns the
  fixed placeholder; the renderer then writes the placeholder as the message's line, and
  the messages before and after it are rendered as they are without it.
\<close>

theorem flatten_error_gives_placeholder:
  assumes "flatten env (JDict message) = Inl e"
  shows "get_message_content env (JDict message) = JStr ''[Content extraction error]''
    \<and> (\<forall>author. map_of message ''author'' = Some (JDict author) \<longrightarrow>
          render_message env cfg message =
            ''**'' @ (if dict_get author ''role'' (JStr ''unknown'') = JStr ''user''
                      then user_name cfg else assistant_name cfg)
            @ ''**: [Content extraction error]'' @ message_separator cfg)
    \<and> render_messages env cfg (before @ message # rest) =
        render_messages env cfg before @ render_message env cfg message
          @ render_messages env cfg rest"
proof -
  have c: "get_message_content env (JDict message) = JStr ''[Content extraction error]''"
    using assms by (simp add: get_message_content_def)
  have "strip ''[Content extraction error]'' \<noteq> []"
    by (simp add: strip_def rstrip_def is_space_def)
  with c show ?thesis
    by (auto simp: render_message_def dict_get_def Let_def render_messages_append)
qed

text \<open>
  The message with numeric \<open>parts\<close>, twice in a row: both lines are rendered.
\<close>

theorem flatten_error_gives_placeholder_witness:
  "flatten env0 (JDict bad_parts_message) = Inl TypeError
   \<and> get_message_content env0 (JDict bad_parts_message) = JStr ''[Content extraction error]''
   \<and> render_messages env0 cfg0 [bad_parts_message, bad_parts_message] =
       ''**User**: [Content extraction error]'' @ message_separator cfg0 @
       ''**User**: [Content extraction error]'' @ message_separator cfg0"
proof -
  have f: "flatten env0 (JDict bad_parts_message) = Inl TypeError"
    by (simp add: flatten_def flatten_dict_def bad_parts_message_def)
  have a: "map_of bad_parts_message ''author'' = Some (JDict [(''role'', JStr ''user'')])"
    by (simp add: bad_parts_message_def)
  from flatten_error_gives_placeholder [OF f, of cfg0 "[]" "[bad_parts_message]"] a f
  show ?thesis
    by (simp add: dict_get_def cfg0_def)
qed


lemma length_collect_messages:
  "length (collect_messages mp) = length (filter (\<lambda>(item_id, item). dict_message item) mp)"
  by (induction mp rule: collect_messages.induct)
     (auto simp: dict_message_def split: json.splits option.splits)

lemma length_truthy_messages:
  "length (truthy_messages mp) = length (filter (\<lambda>(item_id, item). truthy_message item) mp)"
  by (induction mp rule: truthy_messages.induct)
     (auto simp: truthy_message_def split: json.splits option.splits)

text \<open>
  C5 as stated fails on the mapping with three nodes: all three messages are present
  and not null, \<open>process_conversations\<close> collects two turns (not the string), and
  \<open>extract_messages_safely\<close> returns two messages (not the empty object).
\<close>

theorem turn_count_counterexample:
  "length (collect_messages text_node_mapping) = 2
   \<and> extract_messages_safely (JDict [(''mapping'', JDict text_node_mapping)])
       = Inr [JStr ''hi'', JDict [(''content'', JStr ''Hello world'')]]
   \<and> length (filter (\<lambda>(item_id, item). non_null_message item) text_node_mapping) = 3"
  by (simp add: text_node_mapping_def non_null_message_def extract_messages_safely_def
      normalize_author_def)

text \<open>
  C5, amended. The number of turns that \<open>process_conversations\<close> collects from a
  mapping is the number of nodes whose \<open>message\<close> is an object.
  \<open>extract_messages_safely\<close> returns as many messages as there are nodes with a truthy
  \<open>message\<close>, and for a flat \<open>messages\<close> list as many as it has truthy entries.
\<close>

theorem turn_count:
  "length (collect_messages mp) = length (filter (\<lambda>(item_id, item). dict_message item) mp)
   \<and> (map_of d ''mapping'' = Some (JDict mp) \<longrightarrow>
        (\<exists>found. extract_messages_safely (JDict d) = Inr found
           \<and> length found = length (filter (\<lambda>(item_id, item). truthy_message item) mp)))
   \<and> (map_of d ''mapping'' = None \<and> map_of d ''messages'' = Some (JList entries) \<longrightarrow>
        (\<exists>found. extract_messages_safely (JDict d) = Inr found
           \<and> length found = length (filter truthy entries)))"
proof -
  have "truthy_messages mp = []" if "mp = []"
    using that by simp
  then show ?thesis
    by (auto simp: extract_messages_safely_def length_collect_messages length_truthy_messages)
qed

theorem turn_count_witness:
  "length (collect_messages text_node_mapping) = 2
   \<and> length (filter (\<lambda>(item_id, item). dict_message item) text_node_mapping) = 2
   \<and> length (filter (\<lambda>(item_id, item). truthy_message item) text_node_mapping) = 2
   \<and> extract_messages_safely (JDict flat_entry)
       = Inr [JDict [(''author'', JDict [(''role'', JStr ''user'')]),
                     (''content'', JStr ''Hello world'')]]"
  using turn_count [of text_node_mapping "[(''mapping'', JDict text_node_mapping)]" "[]"]
    turn_count [of "[]" flat_entry "[JNull,
         JDict [(''author'', JDict [(''role'', JStr ''user'')]),
                (''content'', JStr ''Hello world'')]]"]
  by (simp add: text_node_mapping_def dict_message_def truthy_message_def flat_entry_def
      extract_messages_safely_def normalize_author_def)

text \<open>
  C3 as stated fails on a record that has a flat \<open>messages\<close> list and no \<open>mapping\<close>:
  \<open>extract_messages_safely\<close> finds its message, but \<open>process_conversations\<close> never calls
  that function; it reads \<open>mapping\<close> only and skips the record.
\<close>

theorem message_discovery_counterexample:
  "extract_messages_safely (JDict flat_entry)
     = Inr [JDict [(''author'', JDict [(''role'', JStr ''user'')]),
                   (''content'', JStr ''Hello world'')]]
   \<and> process_entry env0 cfg0 (JDict flat_entry) = Skipped
   \<and> written (process_conversations env0 cfg0 [JDict flat_entry]) = []"
  by (simp add: flat_entry_def extract_messages_safely_def process_entry_def
      process_entry_body_def process_conversations_def conversation_time_def dict_get_def
      early_filter_def valid_time_def sorted_turns_def)

lemma process_entry_no_mapping:
  assumes "\<not> truthy (dict_get d ''mapping'' (JDict []))"
  shows "process_entry env cfg (JDict d) =
     (case conversation_time env d of
        Inl e \<Rightarrow> Failed
      | Inr t \<Rightarrow>
          (case early_filter env cfg t of
             Inl e \<Rightarrow> Failed
           | Inr old \<Rightarrow> if old then SkippedOld else Skipped))"
  using assms
  by (simp add: process_entry_def process_entry_body_def sorted_turns_def Let_def
      split: sum.splits bool.splits)

text \<open>
  C3, amended. \<open>extract_messages_safely\<close> returns the truthy messages of the nodes of
  \<open>mapping\<close> when the record has that key, else the truthy entries of \<open>messages\<close>, else
  nothing. \<open>process_conversations\<close> reads \<open>mapping\<close> only: a record whose \<open>mapping\<close> is
  missing or empty is counted as skipped, or as skipped for its age when its own
  \<open>create_time\<close> lies before the cutoff year; it fails only when resolving that
  \<open>create_time\<close> raises.
\<close>

theorem message_discovery:
  "(map_of d ''mapping'' = Some (JDict mp) \<longrightarrow>
      extract_messages_safely (JDict d) = Inr (truthy_messages mp))
   \<and> (map_of d ''mapping'' = None \<and> map_of d ''messages'' = Some (JList entries) \<longrightarrow>
      extract_messages_safely (JDict d) = Inr (filter truthy entries))
   \<and> (map_of d ''mapping'' = None \<and> map_of d ''messages'' = None \<longrightarrow>
      extract_messages_safely (JDict d) = Inr [])
   \<and> (\<not> truthy (dict_get d ''mapping'' (JDict [])) \<longrightarrow>
      process_entry env cfg (JDict d) =
        (case conversation_time env d of
           Inl e \<Rightarrow> Failed
         | Inr t \<Rightarrow>
             (case early_filter env cfg t of
                Inl e \<Rightarrow> Failed
              | Inr old \<Rightarrow> if old then SkippedOld else Skipped)))
   \<and> (\<not> truthy (dict_get d ''mapping'' (JDict [])) \<and> map_of d ''create_time'' = None \<longrightarrow>
      process_entry env cfg (JDict d) = Skipped)"
proof -
  have a: "truthy_messages mp = []" if "mp = []"
    using that by simp
  have b: "process_entry env cfg (JDict d) = Skipped"
    if "\<not> truthy (dict_get d ''mapping'' (JDict []))" "map_of d ''create_time'' = None"
    using that
    by (simp add: process_entry_no_mapping conversation_time_def dict_get_def early_filter_def
        valid_time_def)
  show ?thesis
    using a b by (auto simp: extract_messages_safely_def process_entry_no_mapping)
qed


text \<open>
  The mapping with three nodes, and the record with a flat \<open>messages\<close> list: it has no
  \<open>mapping\<close> and no \<open>create_time\<close>, and is counted as skipped.
\<close>

theorem message_discovery_witness:
  "extract_messages_safely (JDict [(''mapping'', JDict text_node_mapping)])
     = Inr [JStr ''hi'', JDict [(''content'', JStr ''Hello world'')]]
   \<and> extract_messages_safely (JDict flat_entry)
     = Inr [JDict [(''author'', JDict [(''role'', JStr ''user'')]),
                   (''content'', JStr ''Hello world'')]]
   \<and> process_entry env0 cfg0 (JDict flat_entry) = Skipped"
proof -
  have a: "map_of [(''mapping'', JDict text_node_mapping)] ''mapping'' = Some (JDict text_node_mapping)"
    by simp
  have b: "map_of flat_entry ''mapping'' = None \<and> map_of flat_entry ''messages'' =
      Some (JList [JNull, JDict [(''author'', JDict [(''role'', JStr ''user'')]),
                                 (''content'', JStr ''Hello world'')]])"
    by (simp add: flat_entry_def)
  have c: "\<not> truthy (dict_get flat_entry ''mapping'' (JDict [])) \<and> map_of flat_entry ''create_time'' = None"
    by (simp add: flat_entry_def dict_get_def)
  have d: "truthy_messages text_node_mapping = [JStr ''hi'', JDict [(''content'', JStr ''Hello world'')]]"
    by (simp add: text_node_mapping_def)
  from a message_discovery [where d = "[(''mapping'', JDict text_node_mapping)]"
        and mp = text_node_mapping and env = env0 and cfg = cfg0]
  have e1: "extract_messages_safely (JDict [(''mapping'', JDict text_node_mapping)])
      = Inr (truthy_messages text_node_mapping)"
    by blast
  note flat = message_discovery [where d = flat_entry and env = env0 and cfg = cfg0
        and entries = "[JNull, JDict [(''author'', JDict [(''role'', JStr ''user'')]),
                                     (''content'', JStr ''Hello world'')]]"]
  from b flat
  have e2: "extract_messages_safely (JDict flat_entry)
      = Inr (filter truthy [JNull, JDict [(''author'', JDict [(''role'', JStr ''user'')]),
                                          (''content'', JStr ''Hello world'')]])"
    by blast
  from c flat have e3: "process_entry env0 cfg0 (JDict flat_entry) = Skipped"
    by blast
  show ?thesis
    by (simp add: e1 e2 e3 d)
qed

section \<open>Properties of the turn order and of the year filter\<close>

lemma collect_two_turns: "collect_messages two_turn_mapping = [first_turn, second_turn]"
  by (simp add: two_turn_mapping_def normalize_author_def first_turn_def second_turn_def)

lemma keys_two_turns: "num_key first_turn = 10 \<and> num_key second_turn = 0"
  by (simp add: num_key_def sort_key_of_def dict_get_def first_turn_def second_turn_def
      time_value_def)

lemma sorted_two_turns:
  "sorted_turns env (JDict two_turn_mapping) = Inr (Some [second_turn, first_turn])"
proof -
  have "sort_key_of first_turn = JInt 10" "sort_key_of second_turn = JInt 0"
    by (simp_all add: sort_key_of_def dict_get_def first_turn_def second_turn_def)
  then have "sort_messages env [first_turn, second_turn] = Inr [second_turn, first_turn]"
    using keys_two_turns by (simp add: sort_messages_def)
  moreover have "two_turn_mapping \<noteq> []"
    by (simp add: two_turn_mapping_def)
  ultimately show ?thesis
    by (simp add: sorted_turns_def collect_two_turns)
qed

text \<open>
  C4 as stated fails on the two turns: the sort key is the raw \<open>create_time\<close> field (0
  when it is missing), not the resolved timestamp, so the turn that resolves to 20 comes
  before the turn that resolves to 10.
\<close>

theorem turn_order_counterexample:
  "sorted_turns env0 (JDict two_turn_mapping) = Inr (Some [second_turn, first_turn])
   \<and> resolved_time env0 second_turn = 20 \<and> resolved_time env0 first_turn = 10
   \<and> \<not> sorted (map (resolved_time env0) [second_turn, first_turn])"
  by (simp add: sorted_two_turns)
     (simp add: resolved_time_def get_create_time_safely_def positive_number_def
       time_value_def first_turn_def second_turn_def)

lemma sort_messages_numeric:
  assumes "list_all (\<lambda>x. num_of (sort_key_of x) \<noteq> None) messages"
  shows "sort_messages env messages = Inr (sort_key num_key messages)"
proof (cases "length messages \<le> 1")
  case True
  then have "messages = [] \<or> (\<exists>x. messages = [x])"
    by (cases messages) auto
  then have "sort_key num_key messages = messages" by auto
  with True show ?thesis by (simp add: sort_messages_def)
next
  case False
  with assms show ?thesis by (simp add: sort_messages_def)
qed

text \<open>
  C4, amended. When every turn's \<open>create_time\<close> is a number, null or missing, the turns
  are the collected messages in ascending order of the sort key \<open>create_time or 0\<close>: the
  same messages, turns with equal keys in the order in which they were met, and a turn
  whose \<open>create_time\<close> is missing, null or zero has key 0.
\<close>

theorem turns_sorted_by_create_time_key:
  assumes "collect_messages mp \<noteq> []"
    and "list_all (\<lambda>x. num_of (sort_key_of x) \<noteq> None) (collect_messages mp)"
  shows "\<exists>turns. sorted_turns env (JDict mp) = Inr (Some turns)
     \<and> sorted (map num_key turns)
     \<and> mset turns = mset (collect_messages mp)
     \<and> (\<forall>k. filter (\<lambda>x. num_key x = k) turns
             = filter (\<lambda>x. num_key x = k) (collect_messages mp))
     \<and> (\<forall>x\<in>set turns. \<not> truthy (dict_get x ''create_time'' JNull) \<longrightarrow> num_key x = 0)"
proof -
  from assms(1) have "mp \<noteq> []" by auto
  with assms have "sorted_turns env (JDict mp) = Inr (Some (sort_key num_key (collect_messages mp)))"
    by (simp add: sorted_turns_def sort_messages_numeric)
  moreover have "num_key x = 0" if "\<not> truthy (dict_get x ''create_time'' JNull)" for x
    using that
    by (auto simp: num_key_def sort_key_of_def dict_get_def time_value_def Let_def
        split: option.splits)
  ultimately show ?thesis
    by (simp add: sort_key_stable)
qed

theorem turns_sorted_by_create_time_key_witness:
  "collect_messages two_turn_mapping = [first_turn, second_turn]
   \<and> list_all (\<lambda>x. num_of (sort_key_of x) \<noteq> None) [first_turn, second_turn]
   \<and> sorted_turns env0 (JDict two_turn_mapping) = Inr (Some [second_turn, first_turn])
   \<and> map num_key [second_turn, first_turn] = [0, 10]"
proof -
  have n: "list_all (\<lambda>x. num_of (sort_key_of x) \<noteq> None) (collect_messages two_turn_mapping)"
    by (simp add: collect_two_turns sort_key_of_def dict_get_def first_turn_def second_turn_def)
  have c: "collect_messages two_turn_mapping \<noteq> []"
    by (simp add: collect_two_turns)
  from turns_sorted_by_create_time_key [OF c n, of env0] n
  show ?thesis
    by (simp add: collect_two_turns sorted_two_turns keys_two_turns)
qed




lemma valid_pick: "valid_time t0 \<Longrightarrow> pick_create_time t0 t = Inr t0"
  by (auto simp: valid_time_def positive_number_def pick_create_time_def split: option.splits)








section \<open>Properties of the rendering\<close>

lemma dropWhile_keeps:
  "\<not> P b \<Longrightarrow> Suc (length ys) \<le> length (dropWhile P (xs @ b # ys))"
  by (induction xs) auto

lemma strip_long:
  assumes "\<not> is_space a" and "\<not> is_space b"
  shows "length xs + 2 \<le> length (strip (a # xs @ b # ys))"
proof -
  have "strip (a # xs @ b # ys) = rev (dropWhile is_space (rev ys @ b # (rev xs @ [a])))"
    using assms(1) by (simp add: strip_def rstrip_def)
  moreover have "Suc (length (rev xs @ [a])) \<le> length (dropWhile is_space (rev ys @ b # (rev xs @ [a])))"
    using assms(2) by (rule dropWhile_keeps)
  ultimately show ?thesis by simp
qed

lemma content_long:
  "30 \<le> length (strip (header cfg date_str inferred_title @ id_line env cfg conversation_id @ tail))"
proof -
  define h where "h = (if date_str \<noteq> [] then date_str @ '' '' @ inferred_title else inferred_title)"
  define xs where "xs = '' '' @ h @ message_separator cfg @ ''<sub>Conversation ID: ''
      @ py_str env conversation_id @ ''</sub''"
  define ys where "ys = message_separator cfg @ tail"
  have "header cfg date_str inferred_title @ id_line env cfg conversation_id @ tail
      = CHR ''#'' # xs @ CHR ''>'' # ys"
    by (simp add: header_def id_line_def xs_def ys_def h_def)
  moreover have "length xs + 2 \<le> length (strip (CHR ''#'' # xs @ CHR ''>'' # ys))"
    by (rule strip_long) (simp_all add: is_space_def)
  moreover have "28 \<le> length xs"
    by (simp add: xs_def)
  ultimately show ?thesis by simp
qed


lemma render_never_insufficient:
  "render env cfg title conversation_id create_time messages \<noteq> Inr Skipped"
proof -
  have "\<not> length (strip (header cfg date_str inferred_title @ id_line env cfg conversation_id
      @ created @ summary_line cfg @ render_messages env cfg messages)) < 10"
    for date_str inferred_title created
    using content_long [of cfg date_str inferred_title env conversation_id
        "created @ summary_line cfg @ render_messages env cfg messages"]
    by simp
  then show ?thesis
    by (simp add: render_def Let_def split: sum.splits option.splits)
qed








text \<open>
  C9. A conversation whose only message is empty is rendered as its title line and its
  id line; the document is written all the same (\<open>render_never_insufficient\<close>: the test
  of line 378 never holds, the title line and the id line alone have 30 characters).
\<close>

theorem header_only_document_written:
  "process_entry env0 cfg0 empty_body_entry =
     Written ''Empty.md''
       (''# Empty'' @ message_separator cfg0 @ ''<sub>Conversation ID: c1</sub>''
          @ message_separator cfg0)
   \<and> processed (process_conversations env0 cfg0 [empty_body_entry]) = 1"
proof -
  have p: "process_entry env0 cfg0 empty_body_entry =
     Written ''Empty.md''
       (''# Empty'' @ message_separator cfg0 @ ''<sub>Conversation ID: c1</sub>''
          @ message_separator cfg0)"
    by code_simp
  then show ?thesis
    by (simp add: process_conversations_def)
qed

section \<open>Properties of the tagger\<close>

lemma alnum_not_space: "is_alnum_char c \<Longrightarrow> \<not> is_space c"
  by (auto simp: is_alnum_char_def is_space_def Let_def)

lemma split_ws_no_space:
  "\<forall>c\<in>set s. \<not> is_space c \<Longrightarrow> length (split_ws w s) \<le> 1"
  by (induction s arbitrary: w) auto

lemma isalnum_single_word: "isalnum token \<Longrightarrow> \<not> multi_word token"
proof -
  assume "isalnum token"
  then have "\<forall>c\<in>set token. \<not> is_space c"
    by (auto simp: isalnum_def list_all_iff alnum_not_space)
  then have "length (split_ws [] token) \<le> 1"
    by (rule split_ws_no_space)
  then show ?thesis by (simp add: multi_word_def)
qed

lemma keyword_hit_iff:
  "isalnum token \<Longrightarrow> keyword_hit content token keywords = token_counts content keywords token"
  by (auto simp: keyword_hit_def token_counts_def phrase_present_def list_ex_iff
      dest: isalnum_single_word)

lemma bump_fst: "map fst (bump topic scores) = map fst scores"
  by (induction scores) auto

lemma bump_map:
  "distinct (map fst scores) \<Longrightarrow>
   bump topic scores = map (\<lambda>(t, n). (t, if t = topic then n + 1 else n)) scores"
proof (induction scores)
  case Nil
  then show ?case by simp
next
  case (Cons p scores)
  obtain t n where p: "p = (t, n)" by (cases p)
  show ?case
  proof (cases "t = topic")
    case True
    with Cons.prems p have "topic \<notin> fst ` set scores" by auto
    then have "map (\<lambda>(t, n). (t, if t = topic then n + 1 else n)) scores = scores"
      by (induction scores) auto
    with True p show ?thesis by simp
  next
    case False
    with Cons p show ?thesis by simp
  qed
qed

lemma score_token_map:
  "distinct (map fst items) \<Longrightarrow> distinct (map fst scores) \<Longrightarrow>
   score_token content token items scores =
     map (\<lambda>(t, n). (t, n + hits content token items t)) scores"
proof (induction items arbitrary: scores)
  case Nil
  then show ?case by (simp add: hits_def)
next
  case (Cons item items)
  obtain topic kws where item: "item = (topic, kws)" by (cases item)
  from Cons.prems item have fresh: "map_of items topic = None"
    by (auto simp: map_of_eq_None_iff)
  let ?scores' = "if keyword_hit content token kws then bump topic scores else scores"
  have d: "distinct (map fst ?scores')"
    using Cons.prems(2) by (simp add: bump_fst)
  have "score_token content token (item # items) scores = score_token content token items ?scores'"
    by (simp add: item)
  also have "\<dots> = map (\<lambda>(t, n). (t, n + hits content token items t)) ?scores'"
    using Cons.IH [OF _ d] Cons.prems(1) by simp
  also have "\<dots> = map (\<lambda>(t, n). (t, n + hits content token (item # items) t)) scores"
    using fresh by (auto simp: bump_map [OF Cons.prems(2)] hits_def item)
  finally show ?case .
qed

lemma score_tokens_map:
  "distinct (map fst scores) \<Longrightarrow>
   score_tokens content tokens scores =
     map (\<lambda>(t, n). (t, n + (\<Sum>token\<leftarrow>tokens. hits content token TOPIC_KEYWORDS t))) scores"
proof (induction tokens arbitrary: scores)
  case Nil
  then show ?case by simp
next
  case (Cons token tokens)
  have dk: "distinct (map fst TOPIC_KEYWORDS)"
    by (simp add: TOPIC_KEYWORDS_def)
  have step: "score_token content token TOPIC_KEYWORDS scores =
      map (\<lambda>(t, n). (t, n + hits content token TOPIC_KEYWORDS t)) scores"
    by (rule score_token_map [OF dk Cons.prems])
  have d': "distinct (map fst (score_token content token TOPIC_KEYWORDS scores))"
    using Cons.prems by (simp add: step comp_def case_prod_unfold)
  show ?case
    by (simp add: Cons.IH [OF d']) (simp add: step case_prod_unfold add.assoc)
qed


lemma sum_list_indicator:
  "(\<Sum>x\<leftarrow>xs. if P x then 1 else 0) = int (length (filter P xs))"
  by (induction xs) auto

lemma filtered_tokens_alnum: "token \<in> set (filtered_tokens tk content) \<Longrightarrow> isalnum token"
  by (simp add: filtered_tokens_def)

lemma topic_scores_claimed:
  "topic_scores tk content =
     map (\<lambda>(topic, keywords). (topic, claimed_score tk content keywords)) TOPIC_KEYWORDS"
proof -
  let ?c = "lower content"
  let ?toks = "filtered_tokens tk ?c"
  let ?init = "map (\<lambda>(topic, keywords). (topic, 0::int)) TOPIC_KEYWORDS"
  have dk: "distinct (map fst TOPIC_KEYWORDS)"
    by (simp add: TOPIC_KEYWORDS_def)
  have fst_init: "map fst ?init = map fst TOPIC_KEYWORDS"
    by (simp add: comp_def case_prod_unfold)
  have "topic_scores tk content = score_tokens ?c ?toks ?init"
    by (simp add: topic_scores_def Let_def)
  also have "\<dots> = map (\<lambda>(t, n). (t, n + (\<Sum>token\<leftarrow>?toks. hits ?c token TOPIC_KEYWORDS t))) ?init"
    by (rule score_tokens_map) (simp only: fst_init dk)
  also have "\<dots> = map (\<lambda>(t, kws). (t, \<Sum>token\<leftarrow>?toks. hits ?c token TOPIC_KEYWORDS t)) TOPIC_KEYWORDS"
    by (simp add: comp_def case_prod_unfold)
  also have "\<dots> = map (\<lambda>(t, kws). (t, claimed_score tk content kws)) TOPIC_KEYWORDS"
  proof (rule map_cong [OF refl])
    fix x
    assume x: "x \<in> set TOPIC_KEYWORDS"
    obtain t kws where tk: "x = (t, kws)" by (cases x)
    from x tk dk have "map_of TOPIC_KEYWORDS t = Some kws" by simp
    then have "(\<Sum>token\<leftarrow>?toks. hits ?c token TOPIC_KEYWORDS t)
        = (\<Sum>token\<leftarrow>?toks. if keyword_hit ?c token kws then 1 else 0)"
      by (simp add: hits_def)
    also have "\<dots> = int (length (filter (\<lambda>token. keyword_hit ?c token kws) ?toks))"
      by (rule sum_list_indicator)
    also have "\<dots> = int (length (filter (token_counts ?c kws) ?toks))"
      by (simp add: keyword_hit_iff filtered_tokens_alnum cong: filter_cong)
    finally show "(case x of (t, kws) \<Rightarrow> (t, \<Sum>token\<leftarrow>?toks. hits ?c token TOPIC_KEYWORDS t))
        = (case x of (t, kws) \<Rightarrow> (t, claimed_score tk content kws))"
      by (simp add: claimed_score_def tk)
  qed
  finally show ?thesis .
qed

text \<open>
  C7. The scores that the two loops compute are the claimed scores, topic by topic, and
  the tags are the sentinel followed by the topics whose claimed score is greater than
  1, in the order of \<open>TOPIC_KEYWORDS\<close>.
\<close>

theorem tagger_selects_by_score:
  "topic_scores tk content =
     map (\<lambda>(topic, keywords). (topic, claimed_score tk content keywords)) TOPIC_KEYWORDS
   \<and> extract_tags_from_content tk content =
     ''chatgpt'' # map fst (filter (\<lambda>(topic, keywords). 1 < claimed_score tk content keywords)
                             TOPIC_KEYWORDS)"
  by (simp add: extract_tags_from_content_def topic_scores_claimed filter_map comp_def
      case_prod_unfold)

theorem tagger_selects_by_score_witness:
  "map fst (filter (\<lambda>(topic, keywords). 1 < claimed_score tk0 ''AI ai'' keywords)
              TOPIC_KEYWORDS) = [''ai'']"
proof -
  have "extract_tags_from_content tk0 ''AI ai'' = [''chatgpt'', ''ai'']"
    by code_simp
  with tagger_selects_by_score [of tk0 "''AI ai''"] show ?thesis
    by simp
qed

text \<open>
  C8. Whatever the text, the tag list is not empty and its element at index 0 is the
  sentinel tag \<open>chatgpt\<close>.
\<close>

theorem tagger_sentinel_first:
  "extract_tags_from_content tk content \<noteq> [] \<and>
   extract_tags_from_content tk content ! 0 = ''chatgpt''"
  by (simp add: extract_tags_from_content_def)

theorem tagger_sentinel_first_witness:
  "extract_tags_from_content tk0 [] \<noteq> [] \<and> extract_tags_from_content tk0 [] ! 0 = ''chatgpt''"
  using tagger_sentinel_first [of tk0 "[]"] by simp

section \<open>Properties of the segmenter\<close>

subsection \<open>Searching in strings\<close>

lemma starts_with_append: "starts_with sub (sub @ rest)"
  by (simp add: starts_with_def)

lemma starts_with_length: "starts_with sub s \<Longrightarrow> length sub \<le> length s"
proof -
  assume "starts_with sub s"
  then have "length (take (length sub) s) = length sub"
    by (simp only: starts_with_def)
  then show ?thesis by simp
qed

lemma starts_with_split: "starts_with sub s \<Longrightarrow> s = sub @ drop (length sub) s"
proof -
  assume "starts_with sub s"
  then have "take (length sub) s @ drop (length sub) s = sub @ drop (length sub) s"
    by (simp only: starts_with_def)
  then show ?thesis by simp
qed

lemma find_first_Some:
  "find_first sub s = Some k \<Longrightarrow> k \<le> length s \<and> starts_with sub (drop k s)"
proof (induction s arbitrary: k)
  case Nil
  then show ?case by (auto simp: starts_with_def split: if_splits)
next
  case (Cons c cs)
  show ?case
  proof (cases "starts_with sub (c # cs)")
    case True
    with Cons.prems show ?thesis by simp
  next
    case False
    with Cons.prems obtain j where "find_first sub cs = Some j" "k = Suc j"
      by auto
    with Cons.IH show ?thesis by simp
  qed
qed

lemma find_first_least:
  "starts_with sub (drop j s) \<Longrightarrow> j \<le> length s \<Longrightarrow> \<exists>k. find_first sub s = Some k \<and> k \<le> j"
proof (induction s arbitrary: j)
  case Nil
  then show ?case by (simp add: starts_with_def)
next
  case (Cons c cs)
  show ?case
  proof (cases "starts_with sub (c # cs)")
    case True
    then show ?thesis by simp
  next
    case False
    with Cons.prems obtain i where i: "j = Suc i"
      by (cases j) auto
    with Cons.prems have "starts_with sub (drop i cs)" "i \<le> length cs"
      by simp_all
    from Cons.IH [OF this] obtain k where "find_first sub cs = Some k" "k \<le> i"
      by blast
    with False i show ?thesis by simp
  qed
qed

lemma find_last_Some:
  "find_last sub s = Some k \<Longrightarrow> k \<le> length s \<and> starts_with sub (drop k s)"
proof (induction s arbitrary: k)
  case Nil
  then show ?case by (auto simp: starts_with_def split: if_splits)
next
  case (Cons c cs)
  show ?case
  proof (cases "find_last sub cs")
    case None
    with Cons.prems show ?thesis by (auto split: if_splits)
  next
    case (Some j)
    with Cons.prems have "k = Suc j" by simp
    with Cons.IH [OF Some] show ?thesis by simp
  qed
qed

lemma find_last_greatest:
  "starts_with sub (drop j s) \<Longrightarrow> j \<le> length s \<Longrightarrow> \<exists>k. find_last sub s = Some k \<and> j \<le> k"
proof (induction s arbitrary: j)
  case Nil
  then show ?case by (simp add: starts_with_def)
next
  case (Cons c cs)
  show ?case
  proof (cases j)
    case 0
    with Cons.prems show ?thesis by (cases "find_last sub cs") auto
  next
    case (Suc i)
    with Cons.prems have "starts_with sub (drop i cs)" "i \<le> length cs"
      by simp_all
    from Cons.IH [OF this] obtain k where "find_last sub cs = Some k" "i \<le> k"
      by blast
    with Suc show ?thesis by simp
  qed
qed

lemma re_split_nonempty: "re_split chunk s \<noteq> []"
  by (induction chunk s rule: re_split.induct) auto

lemma join_Cons: "xs \<noteq> [] \<Longrightarrow> join sep (x # xs) = x @ sep @ join sep xs"
  by (cases xs) auto

lemma re_split_join: "join turn_marker (re_split chunk s) = rev chunk @ s"
proof (induction chunk s rule: re_split.induct)
  case (1 chunk)
  then show ?case by simp
next
  case (2 chunk c cs)
  show ?case
  proof (cases "starts_with turn_marker (c # cs)")
    case True
    then have "c # cs = turn_marker @ drop (length turn_marker) (c # cs)"
      by (rule starts_with_split)
    then have split: "c # cs = turn_marker @ drop 3 cs"
      by (simp add: turn_marker_def numeral_3_eq_3)
    have "join turn_marker (re_split chunk (c # cs))
        = rev chunk @ turn_marker @ join turn_marker (re_split [] (drop 3 cs))"
      using True by (simp add: join_Cons re_split_nonempty)
    also have "\<dots> = rev chunk @ turn_marker @ drop 3 cs"
      using 2(1) [OF True] by simp
    finally show ?thesis by (simp only: split [symmetric])
  next
    case False
    with 2(2) show ?thesis by simp
  qed
qed

subsection \<open>The transitions are in ascending order\<close>

lemma cut_parts_Cons:
  "cut_parts content start (pos # rest) =
     py_slice content start (cut_at content pos) # cut_parts content (cut_at content pos) rest"
  by (simp add: cut_at_def Let_def)

lemma py_find_between:
  assumes "content = pre @ m @ suf" and "0 \<le> cur" and "cur \<le> int (length pre)"
  shows "cur \<le> py_find content m cur \<and> py_find content m cur \<le> int (length pre)"
proof -
  let ?st = "nat cur"
  let ?j = "length pre - ?st"
  have st: "clip_index (length content) cur = ?st"
    using assms by (simp add: clip_index_def)
  have "drop ?j (drop ?st content) = m @ suf"
    using assms by simp
  then have occ: "starts_with m (drop ?j (drop ?st content))"
    by (simp add: starts_with_append)
  have "?j \<le> length (drop ?st content)"
    using assms by simp
  from find_first_least [OF occ this]
  obtain k where k: "find_first m (drop ?st content) = Some k" "k \<le> ?j"
    by blast
  have "\<not> int (length content) < cur"
    using assms by simp
  then have "py_find content m cur = int (?st + k)"
    using k(1) by (simp add: py_find_def st)
  with k(2) assms(2,3) show ?thesis by simp
qed

lemma py_find_phrase:
  assumes "contains phrase s"
  shows "0 \<le> py_find s phrase 0 \<and> py_find s phrase 0 \<le> int (length s)"
proof -
  from assms obtain k where k: "find_first phrase s = Some k"
    by (auto simp: contains_def)
  then have "k \<le> length s"
    by (simp add: find_first_Some)
  with k show ?thesis
    by (simp add: py_find_def clip_index_def)
qed

lemma find_phrase_contains:
  "List.find (\<lambda>phrase. contains phrase s) phrases = Some phrase \<Longrightarrow> contains phrase s"
  by (induction phrases) (auto split: if_splits)

lemma scan_messages_bounds:
  assumes "content = pre @ join turn_marker msgs" and "msgs \<noteq> []"
    and "0 \<le> cur" and "cur \<le> int (length pre)"
  shows "sorted (scan_messages content i cur msgs)
    \<and> (\<forall>p\<in>set (scan_messages content i cur msgs). cur \<le> p)"
  using assms
proof (induction msgs arbitrary: pre cur i)
  case Nil
  then show ?case by simp
next
  case (Cons m rest)
  define suf where "suf = (if rest = [] then [] else turn_marker @ join turn_marker rest)"
  have content: "content = pre @ m @ suf"
    using Cons.prems(1) by (cases rest) (simp_all add: suf_def)
  define q where "q = py_find content m cur"
  from py_find_between [OF content Cons.prems(3,4)]
  have q: "cur \<le> q" "q \<le> int (length pre)"
    by (simp_all add: q_def)
  define found where "found =
    (if 0 < i then
       (case List.find (\<lambda>phrase. contains phrase (lower m)) TOPIC_TRANSITION_PHRASES of
          None \<Rightarrow> []
        | Some phrase \<Rightarrow> [q + py_find (lower m) phrase 0])
     else [])"
  have unfold: "scan_messages content i cur (m # rest) =
      found @ scan_messages content (Suc i) (q + int (length m)) rest"
    unfolding found_def q_def by (simp add: Let_def)
  have found: "\<forall>p\<in>set found. cur \<le> p \<and> p \<le> q + int (length m)"
  proof
    fix p
    assume "p \<in> set found"
    moreover have "found = [] \<or>
        (\<exists>ph. List.find (\<lambda>phrase. contains phrase (lower m)) TOPIC_TRANSITION_PHRASES = Some ph
              \<and> found = [q + py_find (lower m) ph 0])"
      by (cases "List.find (\<lambda>phrase. contains phrase (lower m)) TOPIC_TRANSITION_PHRASES")
         (simp_all add: found_def)
    ultimately obtain phrase where
      f: "List.find (\<lambda>phrase. contains phrase (lower m)) TOPIC_TRANSITION_PHRASES = Some phrase"
      and p: "p = q + py_find (lower m) phrase 0"
      by auto
    from f have "contains phrase (lower m)"
      by (rule find_phrase_contains)
    from py_find_phrase [OF this] have "0 \<le> py_find (lower m) phrase 0"
      "py_find (lower m) phrase 0 \<le> int (length m)"
      by (simp_all add: lower_def)
    with p q show "cur \<le> p \<and> p \<le> q + int (length m)" by simp
  qed
  have sf: "sorted found"
    by (simp add: found_def split: option.splits)
  show ?case
  proof (cases "rest = []")
    case True
    with found sf show ?thesis unfolding unfold by simp
  next
    case False
    then have c2: "content = (pre @ m @ turn_marker) @ join turn_marker rest"
      using content by (simp add: suf_def)
    have b1: "0 \<le> q + int (length m)"
      using q Cons.prems(3) by simp
    have b2: "q + int (length m) \<le> int (length (pre @ m @ turn_marker))"
      using q by simp
    from Cons.IH [OF c2 False b1 b2]
    have ih: "sorted (scan_messages content (Suc i) (q + int (length m)) rest)"
      "\<forall>p\<in>set (scan_messages content (Suc i) (q + int (length m)) rest). q + int (length m) \<le> p"
      by blast+
    have "\<forall>p\<in>set (scan_messages content (Suc i) (q + int (length m)) rest). cur \<le> p"
      using ih(2) q(1) by fastforce
    with found sf ih show ?thesis
      unfolding unfold by (fastforce simp: sorted_append)
  qed
qed

lemma transitions_sorted:
  "sorted (detect_topic_transitions content)
   \<and> (\<forall>p\<in>set (detect_topic_transitions content). 0 \<le> p)"
  unfolding detect_topic_transitions_def
  by (rule scan_messages_bounds [where pre = "[]"])
     (simp_all add: re_split_join re_split_nonempty)

subsection \<open>The parts concatenate to the document\<close>

lemma starts_with_take_mono:
  assumes "starts_with sub (drop k (take a s))" and "a \<le> b"
  shows "starts_with sub (drop k (take b s))"
proof -
  let ?n = "length sub"
  have eq: "take ?n (take (a - k) (drop k s)) = sub"
    using assms(1) by (simp add: starts_with_def drop_take)
  then have "length (take ?n (take (a - k) (drop k s))) = ?n"
    by simp
  then have n: "?n \<le> a - k"
    by simp
  with assms(2) have "take ?n (take (b - k) (drop k s)) = take ?n (take (a - k) (drop k s))"
    by (simp add: min_def)
  with eq show ?thesis
    by (simp add: starts_with_def drop_take)
qed

lemma cut_at_range: "0 \<le> cut_at content pos \<and> cut_at content pos \<le> int (length content)"
proof (cases "find_last turn_marker (take (clip_index (length content) pos) content)")
  case None
  then show ?thesis by (simp add: cut_at_def py_rfind0_def)
next
  case (Some k)
  from find_last_Some [OF Some] have "k \<le> length content" by simp
  with Some show ?thesis by (simp add: cut_at_def py_rfind0_def)
qed

lemma cut_at_mono:
  assumes "0 \<le> p" and "p \<le> p'"
  shows "cut_at content p \<le> cut_at content p'"
proof (cases "find_last turn_marker (take (clip_index (length content) p) content)")
  case None
  then have "cut_at content p = 0" by (simp add: cut_at_def py_rfind0_def)
  then show ?thesis by (simp add: cut_at_range)
next
  case (Some k)
  let ?a = "clip_index (length content) p"
  let ?b = "clip_index (length content) p'"
  have ab: "?a \<le> ?b"
    using assms by (auto simp: clip_index_def)
  from find_last_Some [OF Some]
  have k: "k \<le> length (take ?a content)" "starts_with turn_marker (drop k (take ?a content))"
    by simp_all
  from k(1) ab have "k \<le> length (take ?b content)" by simp
  from find_last_greatest [OF starts_with_take_mono [OF k(2) ab] this]
  obtain k' where "find_last turn_marker (take ?b content) = Some k'" "k \<le> k'"
    by blast
  with Some show ?thesis by (simp add: cut_at_def py_rfind0_def)
qed

lemma cut_parts_concat:
  assumes "sorted trs" and "\<forall>p\<in>set trs. 0 \<le> p \<and> start \<le> cut_at content p"
    and "0 \<le> start" and "start \<le> int (length content)"
  shows "concat (cut_parts content start trs) = drop (nat start) content"
  using assms
proof (induction trs arbitrary: start)
  case Nil
  then show ?case by (simp add: py_slice_from_def clip_index_def)
next
  case (Cons pos rest)
  let ?m = "cut_at content pos"
  have m: "start \<le> ?m" "?m \<le> int (length content)" "0 \<le> ?m"
    using Cons.prems(2) cut_at_range [of content pos] by simp_all
  have later: "\<forall>p\<in>set rest. 0 \<le> p \<and> ?m \<le> cut_at content p"
  proof
    fix p
    assume p: "p \<in> set rest"
    with Cons.prems(1) have "pos \<le> p" by simp
    moreover from Cons.prems(2) have "0 \<le> pos" by simp
    ultimately show "0 \<le> p \<and> ?m \<le> cut_at content p"
      using cut_at_mono [of pos p content] by simp
  qed
  from Cons.prems(1) have "sorted rest" by simp
  from Cons.IH [OF this later m(3) m(2)]
  have ih: "concat (cut_parts content ?m rest) = drop (nat ?m) content" .
  have slice: "py_slice content start ?m = take (nat ?m - nat start) (drop (nat start) content)"
    using m Cons.prems(3) by (simp add: py_slice_def clip_index_def Let_def)
  have "drop (nat ?m) content = drop (nat ?m - nat start) (drop (nat start) content)"
    using m Cons.prems(3) by simp
  then have "take (nat ?m - nat start) (drop (nat start) content) @ drop (nat ?m) content
      = drop (nat start) content"
    by (simp only: append_take_drop_id)
  then show ?case
    by (simp only: cut_parts_Cons concat.simps ih slice)
qed

lemma parts_concat:
  "concat (cut_parts content 0 (detect_topic_transitions content)) = content"
proof -
  have "concat (cut_parts content 0 (detect_topic_transitions content)) = drop (nat 0) content"
    using transitions_sorted [of content] cut_at_range [of content]
    by (intro cut_parts_concat) simp_all
  then show ?thesis by simp
qed

subsection \<open>A part is empty or not blank\<close>

lemma strip_empty_iff: "strip s = [] \<longleftrightarrow> (\<forall>c\<in>set s. is_space c)"
proof
  assume "strip s = []"
  then have "\<forall>c\<in>set (dropWhile is_space s). is_space c"
    by (simp add: strip_def rstrip_def dropWhile_eq_Nil_conv)
  then have "dropWhile is_space s = []"
    using hd_dropWhile [of is_space s] by (cases "dropWhile is_space s") auto
  then show "\<forall>c\<in>set s. is_space c"
    by (simp add: dropWhile_eq_Nil_conv)
next
  assume "\<forall>c\<in>set s. is_space c"
  then have "dropWhile is_space s = []"
    by (simp add: dropWhile_eq_Nil_conv)
  then have "strip s = rstrip []"
    by (simp only: strip_def)
  then show "strip s = []"
    by (simp add: rstrip_def)
qed

lemma cut_at_cut_point: "cut_point content (cut_at content pos)"
proof (cases "find_last turn_marker (take (clip_index (length content) pos) content)")
  case None
  then show ?thesis by (simp add: cut_at_def py_rfind0_def cut_point_def)
next
  case (Some k)
  let ?a = "clip_index (length content) pos"
  have "?a \<le> length content"
    by (auto simp: clip_index_def)
  from find_last_Some [OF Some] have "starts_with turn_marker (drop k (take ?a content))"
    by simp
  from starts_with_take_mono [OF this \<open>?a \<le> length content\<close>]
  have "starts_with turn_marker (drop k content)" by simp
  with Some show ?thesis by (simp add: cut_at_def py_rfind0_def cut_point_def)
qed

lemma marker_has_star:
  assumes "starts_with turn_marker s"
  shows "3 \<le> length s \<and> s ! 2 = CHR ''*'' \<and> s ! 0 = CHR 0x0A \<and> s ! 1 = CHR 0x0A"
proof -
  from starts_with_split [OF assms] obtain r where "s = turn_marker @ r"
    by blast
  then show ?thesis by (simp add: turn_marker_def)
qed

lemma markers_apart:
  assumes "starts_with turn_marker (drop a s)" and "starts_with turn_marker (drop b s)"
    and "a < b"
  shows "a + 3 \<le> b"
proof (rule ccontr)
  assume "\<not> a + 3 \<le> b"
  with assms(3) have d: "b = a + 1 \<or> b = a + 2" by arith
  from marker_has_star [OF assms(1)]
  have s1: "drop a s ! 2 = CHR ''*''" "drop a s ! 1 = CHR 0x0A" "3 \<le> length (drop a s)"
    by simp_all
  from marker_has_star [OF assms(2)]
  have s2: "drop b s ! 0 = CHR 0x0A" "drop b s ! 1 = CHR 0x0A" "3 \<le> length (drop b s)"
    by simp_all
  from d show False
  proof
    assume b: "b = a + 1"
    with s1(3) s2(3) have "drop a s ! 2 = drop b s ! 1"
      by (simp add: add.commute)
    with s1 s2 show False by simp
  next
    assume b: "b = a + 2"
    with s1(3) s2(3) have "drop a s ! 2 = drop b s ! 0"
      by (simp add: add.commute)
    with s1 s2 show False by simp
  qed
qed

lemma not_space_star: "\<not> is_space CHR ''*''"
  by (simp add: is_space_def)

lemma slice_not_blank:
  assumes "content \<noteq> []" and "\<not> is_space (hd content)"
    and "cut_point content a" and "cut_point content b"
    and "0 \<le> a" and "a < b" and "b \<le> int (length content)"
  shows "\<exists>c\<in>set (py_slice content a b). \<not> is_space c"
proof -
  have slice: "py_slice content a b = take (nat b - nat a) (drop (nat a) content)"
    using assms(5,6,7) by (simp add: py_slice_def clip_index_def Let_def)
  show ?thesis
  proof (cases "a = 0")
    case True
    with assms(6) have "0 < nat b" by simp
    then obtain n where n: "nat b = Suc n"
      by (cases "nat b") auto
    from assms(1) obtain c cs where c: "content = c # cs"
      by (cases content) auto
    have "py_slice content a b = c # take n cs"
      unfolding slice using True c n by simp
    with assms(2) c show ?thesis by simp
  next
    case False
    with assms(3) have ma: "starts_with turn_marker (drop (nat a) content)"
      by (simp add: cut_point_def)
    from assms(4,5,6) have mb: "starts_with turn_marker (drop (nat b) content)"
      by (auto simp: cut_point_def)
    from assms(5,6) have "nat a < nat b" by simp
    from markers_apart [OF ma mb this] have far: "3 \<le> nat b - nat a" by simp
    from marker_has_star [OF ma]
    have star: "drop (nat a) content ! 2 = CHR ''*''" "3 \<le> length (drop (nat a) content)"
      by simp_all
    with far have "py_slice content a b ! 2 = CHR ''*''" "2 < length (py_slice content a b)"
      by (simp_all add: slice)
    then have "CHR ''*'' \<in> set (py_slice content a b)"
      by (metis nth_mem)
    with not_space_star show ?thesis by blast
  qed
qed

lemma tail_not_blank:
  assumes "content \<noteq> []" and "\<not> is_space (hd content)"
    and "cut_point content a" and "0 \<le> a" and "a \<le> int (length content)"
  shows "\<exists>c\<in>set (py_slice_from content a). \<not> is_space c"
proof (cases "a = 0")
  case True
  with assms(1) have "hd content \<in> set (py_slice_from content a)"
    by (simp add: py_slice_from_def clip_index_def)
  with assms(2) show ?thesis by blast
next
  case False
  with assms(3) have ma: "starts_with turn_marker (drop (nat a) content)"
    by (simp add: cut_point_def)
  have "py_slice_from content a = drop (nat a) content"
    using assms(4,5) by (simp add: py_slice_from_def clip_index_def)
  with marker_has_star [OF ma]
  have "py_slice_from content a ! 2 = CHR ''*''" "2 < length (py_slice_from content a)"
    by simp_all
  then have "CHR ''*'' \<in> set (py_slice_from content a)"
    by (metis nth_mem)
  with not_space_star show ?thesis by blast
qed

lemma cut_parts_not_blank:
  assumes "content \<noteq> []" and "\<not> is_space (hd content)"
    and "sorted trs" and "\<forall>p\<in>set trs. 0 \<le> p \<and> start \<le> cut_at content p"
    and "0 \<le> start" and "start \<le> int (length content)" and "cut_point content start"
  shows "\<forall>part\<in>set (cut_parts content start trs). part = [] \<or> strip part \<noteq> []"
  using assms(3-7)
proof (induction trs arbitrary: start)
  case Nil
  from tail_not_blank [OF assms(1,2) Nil(5,3,4)] show ?case
    by (auto simp: strip_empty_iff)
next
  case (Cons pos rest)
  let ?m = "cut_at content pos"
  have m: "start \<le> ?m" "?m \<le> int (length content)" "0 \<le> ?m"
    using Cons.prems(2) cut_at_range [of content pos] by simp_all
  have later: "\<forall>p\<in>set rest. 0 \<le> p \<and> ?m \<le> cut_at content p"
  proof
    fix p
    assume p: "p \<in> set rest"
    with Cons.prems(1) have "pos \<le> p" by simp
    moreover from Cons.prems(2) have "0 \<le> pos" by simp
    ultimately show "0 \<le> p \<and> ?m \<le> cut_at content p"
      using cut_at_mono [of pos p content] by simp
  qed
  from Cons.prems(1) have "sorted rest" by simp
  from Cons.IH [OF this later m(3) m(2) cut_at_cut_point]
  have ih: "\<forall>part\<in>set (cut_parts content ?m rest). part = [] \<or> strip part \<noteq> []" .
  have "py_slice content start ?m = [] \<or> strip (py_slice content start ?m) \<noteq> []"
  proof (cases "start = ?m")
    case True
    then show ?thesis
      by (simp add: py_slice_def Let_def)
  next
    case False
    with m(1) have "start < ?m" by simp
    from slice_not_blank [OF assms(1,2) Cons.prems(5) cut_at_cut_point Cons.prems(3) this m(2)]
    show ?thesis by (auto simp: strip_empty_iff)
  qed
  with ih show ?case
    by (simp only: cut_parts_Cons) simp
qed

lemma concat_drop_empty: "concat (filter (\<lambda>part. part \<noteq> []) parts) = concat parts"
  by (induction parts) auto

lemma segments_concat:
  assumes "content \<noteq> []" and "\<not> is_space (hd content)"
  shows "concat (split_content_by_topics content) = content"
proof (cases "detect_topic_transitions content = []")
  case True
  then show ?thesis by (simp add: split_content_by_topics_def)
next
  case False
  let ?parts = "cut_parts content 0 (detect_topic_transitions content)"
  have "\<forall>part\<in>set ?parts. part = [] \<or> strip part \<noteq> []"
    using transitions_sorted [of content] cut_at_range [of content]
    by (intro cut_parts_not_blank [OF assms]) (simp_all add: cut_point_def)
  then have "filter (\<lambda>part. strip part \<noteq> []) ?parts = filter (\<lambda>part. part \<noteq> []) ?parts"
    by (intro filter_cong) (auto simp: strip_def rstrip_def)
  with False show ?thesis
    by (simp add: split_content_by_topics_def concat_drop_empty parts_concat)
qed

text \<open>
  C1 as stated fails on the document that starts with two spaces: the part before the
  cut is blank and is dropped, so the only segment is the rest of the document.
\<close>

theorem segments_counterexample:
  "split_content_by_topics blank_start_document = [turn_marker @ ''A: moving on to'']
   \<and> concat (split_content_by_topics blank_start_document) \<noteq> blank_start_document"
proof -
  have "split_content_by_topics blank_start_document = [turn_marker @ ''A: moving on to'']"
    by code_simp
  then show ?thesis
    by (simp add: blank_start_document_def)
qed

text \<open>
  C1, amended. The parts that \<open>split_content_by_topics\<close> cuts concatenate to the
  document; its result is the whole document when no transition is detected, else the
  parts that are not blank, in order. So the segments concatenate to the document when no
  part is blank without being empty, and that is so for every document that starts with
  a character that is not white space.
\<close>

theorem segments_partition:
  "concat (cut_parts content 0 (detect_topic_transitions content)) = content
   \<and> split_content_by_topics content =
       (if detect_topic_transitions content = [] then [content]
        else filter (\<lambda>part. strip part \<noteq> [])
               (cut_parts content 0 (detect_topic_transitions content)))
   \<and> ((\<forall>part\<in>set (cut_parts content 0 (detect_topic_transitions content)).
          part = [] \<or> strip part \<noteq> []) \<longrightarrow>
        concat (split_content_by_topics content) = content)
   \<and> (content \<noteq> [] \<and> \<not> is_space (hd content) \<longrightarrow>
        concat (split_content_by_topics content) = content)"
proof -
  let ?parts = "cut_parts content 0 (detect_topic_transitions content)"
  have "concat (split_content_by_topics content) = content"
    if "\<forall>part\<in>set ?parts. part = [] \<or> strip part \<noteq> []"
  proof -
    from that
    have "filter (\<lambda>part. strip part \<noteq> []) ?parts = filter (\<lambda>part. part \<noteq> []) ?parts"
      by (intro filter_cong) (auto simp: strip_def rstrip_def)
    then show ?thesis
      by (cases "detect_topic_transitions content = []")
         (simp_all add: split_content_by_topics_def concat_drop_empty parts_concat)
  qed
  then show ?thesis
    by (simp add: parts_concat segments_concat) (simp add: split_content_by_topics_def)
qed

text \<open>
  The document of two turns is cut before its second turn; a document without transition
  is one segment.
\<close>

theorem segments_partition_witness:
  "split_content_by_topics two_topic_document =
     [''# T'' @ turn_marker @ ''User**: hi'', turn_marker @ ''Bot**: new topic: x'']
   \<and> concat (split_content_by_topics two_topic_document) = two_topic_document
   \<and> split_content_by_topics ''# T'' = [''# T'']"
proof -
  have a: "two_topic_document \<noteq> [] \<and> \<not> is_space (hd two_topic_document)"
    by (simp add: two_topic_document_def is_space_def)
  have b: "split_content_by_topics two_topic_document =
     [''# T'' @ turn_marker @ ''User**: hi'', turn_marker @ ''Bot**: new topic: x'']"
    by code_simp
  have c: "split_content_by_topics ''# T'' = [''# T'']"
    by code_simp
  from segments_partition [of two_topic_document] a
  have "concat (split_content_by_topics two_topic_document) = two_topic_document"
    by blast
  with b c show ?thesis by simp
qed

end
